theory Spec2Isabelle
  imports Complex_Main "HOL-Library.Sublist"
begin

section \<open>Python values used by the scraper\<close>

text \<open>
  Errors are the exceptions the code can meet while it runs, all of them subclasses of
  \<^verbatim>\<open>Exception\<close>.
\<close>

datatype py_error =
  JSONDecodeError | TypeError | KeyError | IndexError | AttributeError
  | SelectorSyntaxError | WebDriverException | RequestException

subsection \<open>Characters and strings\<close>

text \<open>
  A Python string is a list of characters. The characters of the model are the code
  points 0..255 and two more: U+0130, the capital I with a dot above, which
  \<^verbatim>\<open>str.lower\<close> replaces by two characters, and U+0307, the combining dot above, the
  second of the two. On these characters \<^verbatim>\<open>str.lower\<close>, the regular expression class
  \<^verbatim>\<open>\w\<close>, \<^verbatim>\<open>str.strip\<close> and \<^verbatim>\<open>repr\<close> are as written below. A string
  literal of the source is written \<open>U ''...''\<close>.
\<close>

datatype uchar = Latin1 char | CapitalIDot | CombiningDot

type_synonym ustring = "uchar list"

definition U :: "string \<Rightarrow> ustring" where
  "U s = map Latin1 s"

definition lower_latin1 :: "char \<Rightarrow> char" where
  "lower_latin1 c =
     (let n = (of_char c :: nat)
      in if (65 \<le> n \<and> n \<le> 90) \<or> (192 \<le> n \<and> n \<le> 214) \<or> (216 \<le> n \<and> n \<le> 222)
         then char_of (n + 32) else c)"

text \<open>What \<^verbatim>\<open>str.lower\<close> puts in the place of one character.\<close>

fun py_lower_char :: "uchar \<Rightarrow> ustring" where
  "py_lower_char (Latin1 c) = [Latin1 (lower_latin1 c)]"
| "py_lower_char CapitalIDot = [Latin1 CHR ''i'', CombiningDot]"
| "py_lower_char CombiningDot = [CombiningDot]"

definition py_lower :: "ustring \<Rightarrow> ustring" where
  "py_lower s = concat (map py_lower_char s)"

definition word_latin1 :: "char \<Rightarrow> bool" where
  "word_latin1 c =
     (let n = (of_char c :: nat)
      in (48 \<le> n \<and> n \<le> 57) \<or> (65 \<le> n \<and> n \<le> 90) \<or> n = 95 \<or> (97 \<le> n \<and> n \<le> 122)
         \<or> n = 170 \<or> n = 178 \<or> n = 179 \<or> n = 181 \<or> n = 185 \<or> n = 186
         \<or> (188 \<le> n \<and> n \<le> 190) \<or> (192 \<le> n \<and> n \<le> 214) \<or> (216 \<le> n \<and> n \<le> 246)
         \<or> 248 \<le> n)"

text \<open>The class \<^verbatim>\<open>\w\<close>: a letter or a digit of any script, or the underscore.\<close>

fun is_word_char :: "uchar \<Rightarrow> bool" where
  "is_word_char (Latin1 c) = word_latin1 c"
| "is_word_char CapitalIDot = True"
| "is_word_char CombiningDot = False"

definition space_latin1 :: "char \<Rightarrow> bool" where
  "space_latin1 c =
     (let n = (of_char c :: nat)
      in (9 \<le> n \<and> n \<le> 13) \<or> (28 \<le> n \<and> n \<le> 32) \<or> n = 133 \<or> n = 160)"

fun is_space_char :: "uchar \<Rightarrow> bool" where
  "is_space_char (Latin1 c) = space_latin1 c"
| "is_space_char CapitalIDot = False"
| "is_space_char CombiningDot = False"

text \<open>\<^verbatim>\<open>s.strip()\<close>\<close>

definition py_strip :: "ustring \<Rightarrow> ustring" where
  "py_strip s = rev (dropWhile is_space_char (rev (dropWhile is_space_char s)))"

text \<open>\<^verbatim>\<open>sub in s\<close> for two strings: \<open>sub\<close> occurs in \<open>s\<close> as a contiguous run.\<close>

fun py_in_str :: "'a list \<Rightarrow> 'a list \<Rightarrow> bool" where
  "py_in_str sub [] = (sub = [])"
| "py_in_str sub (c # cs) = (prefix sub (c # cs) \<or> py_in_str sub cs)"

text \<open>
  \<^verbatim>\<open>s.find(sub)\<close>: the lowest index at which \<open>sub\<close> occurs in \<open>s\<close>, or \<open>-1\<close>.
\<close>

fun py_find :: "'a list \<Rightarrow> 'a list \<Rightarrow> int" where
  "py_find [] sub = (if sub = [] then 0 else -1)"
| "py_find (c # cs) sub =
     (if prefix sub (c # cs) then 0
      else (let r = py_find cs sub in if r = -1 then -1 else r + 1))"

text \<open>\<^verbatim>\<open>s[start:end]\<close> for indices that are not negative.\<close>

definition py_slice :: "'a list \<Rightarrow> int \<Rightarrow> int \<Rightarrow> 'a list" where
  "py_slice s start end = drop (nat start) (take (nat end) s)"

text \<open>\<^verbatim>\<open>re.findall(r'\w+', s)\<close>: the maximal runs of word characters, left to right.\<close>

function findall_words :: "ustring \<Rightarrow> ustring list" where
  "findall_words [] = []"
| "findall_words (c # cs) =
     (if is_word_char c
      then (c # takeWhile is_word_char cs) # findall_words (dropWhile is_word_char cs)
      else findall_words cs)"
  by pat_completeness auto
termination
  by (relation "measure length") (auto simp: length_dropWhile_le less_Suc_eq_le)

text \<open>\<^verbatim>\<open>sep.join(parts)\<close>\<close>

fun py_join :: "'a list \<Rightarrow> 'a list list \<Rightarrow> 'a list" where
  "py_join sep [] = []"
| "py_join sep [x] = x"
| "py_join sep (x # y # ys) = x @ sep @ py_join sep (y # ys)"

subsection \<open>Rendering: \<^verbatim>\<open>str\<close> and \<^verbatim>\<open>repr\<close>\<close>

text \<open>
  The digit for a number below 16, and the decimal digits of a number, as \<^verbatim>\<open>str\<close>
  writes an \<^verbatim>\<open>int\<close>.
\<close>

definition digit_char :: "nat \<Rightarrow> char" where
  "digit_char d = ''0123456789abcdef'' ! d"

function dec_nat :: "nat \<Rightarrow> string" where
  "dec_nat n = (if n < 10 then [digit_char n] else dec_nat (n div 10) @ [digit_char (n mod 10)])"
  by pat_completeness auto
termination
  by (relation "measure id") auto

definition dec_int :: "int \<Rightarrow> string" where
  "dec_int i = (if i < 0 then CHR ''-'' # dec_nat (nat (- i)) else dec_nat (nat i))"

text \<open>The two-digit escape \<^verbatim>\<open>\xNN\<close> of a code point below 256.\<close>

definition hex_escape :: "char \<Rightarrow> string" where
  "hex_escape c =
     [CHR 0x5C, CHR ''x'', digit_char ((of_char c :: nat) div 16), digit_char ((of_char c :: nat) mod 16)]"

text \<open>\<^verbatim>\<open>str.isprintable\<close> on the code points 0..255.\<close>

definition printable_latin1 :: "char \<Rightarrow> bool" where
  "printable_latin1 c =
     (let n = (of_char c :: nat)
      in \<not> (n \<le> 31 \<or> (127 \<le> n \<and> n \<le> 160) \<or> n = 173))"

text \<open>
  \<^verbatim>\<open>repr\<close> of a string: the quote is the single quote, or the double quote when the
  string has a single quote and no double quote; the quote and the backslash are
  escaped, tab, newline and carriage return have their letters, every other character
  that is not printable is written \<^verbatim>\<open>\xNN\<close>.
\<close>

definition repr_quote :: "ustring \<Rightarrow> char" where
  "repr_quote s =
     (if Latin1 (CHR 0x27) \<in> set s \<and> Latin1 (CHR 0x22) \<notin> set s then CHR 0x22 else CHR 0x27)"

fun repr_char :: "char \<Rightarrow> uchar \<Rightarrow> ustring" where
  "repr_char quote (Latin1 c) =
     (if c = quote \<or> c = CHR 0x5C then [Latin1 (CHR 0x5C), Latin1 c]
      else if c = CHR 0x09 then U [CHR 0x5C, CHR ''t'']
      else if c = CHR 0x0A then U [CHR 0x5C, CHR ''n'']
      else if c = CHR 0x0D then U [CHR 0x5C, CHR ''r'']
      else if printable_latin1 c then [Latin1 c]
      else U (hex_escape c))"
| "repr_char quote CapitalIDot = [CapitalIDot]"
| "repr_char quote CombiningDot = [CombiningDot]"

definition repr_str :: "ustring \<Rightarrow> ustring" where
  "repr_str s =
     (let quote = repr_quote s
      in [Latin1 quote] @ concat (map (repr_char quote) s) @ [Latin1 quote])"

subsection \<open>JSON values as \<^verbatim>\<open>json.loads\<close> returns them\<close>

text \<open>
  A JSON integer is a Python \<^verbatim>\<open>int\<close>. A JSON number with a fraction or an exponent is
  a \<^verbatim>\<open>float\<close>; the code never computes with one, it only formats it, so a float is
  given by its \<^verbatim>\<open>repr\<close> (for the literal \<^verbatim>\<open>1e2\<close> that is \<^verbatim>\<open>100.0\<close>). An object is the
  list of the items of the \<^verbatim>\<open>dict\<close>, in its order, looked up with \<open>map_of\<close>.
\<close>

datatype json =
  JNull | JBool bool | JInt int | JFloat string | JStr ustring
  | JArr "json list" | JObj "(ustring \<times> json) list"

fun is_dict :: "json \<Rightarrow> bool" where
  "is_dict (JObj d) = True"
| "is_dict _ = False"

text \<open>\<^verbatim>\<open>k in data\<close> for a string \<open>k\<close>.\<close>

fun py_contains :: "ustring \<Rightarrow> json \<Rightarrow> py_error + bool" where
  "py_contains k (JObj d) = Inr (map_of d k \<noteq> None)"
| "py_contains k (JStr s) = Inr (py_in_str k s)"
| "py_contains k (JArr xs) = Inr (JStr k \<in> set xs)"
| "py_contains k JNull = Inl TypeError"
| "py_contains k (JBool b) = Inl TypeError"
| "py_contains k (JInt i) = Inl TypeError"
| "py_contains k (JFloat r) = Inl TypeError"

text \<open>\<^verbatim>\<open>data[k]\<close> for a string \<open>k\<close>.\<close>

fun py_getitem :: "json \<Rightarrow> ustring \<Rightarrow> py_error + json" where
  "py_getitem (JObj d) k = (case map_of d k of None \<Rightarrow> Inl KeyError | Some v \<Rightarrow> Inr v)"
| "py_getitem _ k = Inl TypeError"

text \<open>\<^verbatim>\<open>x[0]\<close>\<close>

fun py_getitem0 :: "json \<Rightarrow> py_error + json" where
  "py_getitem0 (JArr []) = Inl IndexError"
| "py_getitem0 (JArr (x # xs)) = Inr x"
| "py_getitem0 (JStr []) = Inl IndexError"
| "py_getitem0 (JStr (c # cs)) = Inr (JStr [c])"
| "py_getitem0 (JObj d) = Inl KeyError"
| "py_getitem0 _ = Inl TypeError"

text \<open>\<^verbatim>\<open>offer.get(k, default)\<close>: only a dict has the method.\<close>

fun py_get :: "json \<Rightarrow> ustring \<Rightarrow> json \<Rightarrow> py_error + json" where
  "py_get (JObj d) k dflt = Inr (case map_of d k of None \<Rightarrow> dflt | Some v \<Rightarrow> v)"
| "py_get _ k dflt = Inl AttributeError"

text \<open>\<^verbatim>\<open>repr(v)\<close>, which is also how a list or a dict writes its members.\<close>

fun py_repr :: "json \<Rightarrow> ustring" where
  "py_repr JNull = U ''None''"
| "py_repr (JBool b) = U (if b then ''True'' else ''False'')"
| "py_repr (JInt i) = U (dec_int i)"
| "py_repr (JFloat r) = U r"
| "py_repr (JStr s) = repr_str s"
| "py_repr (JArr xs) = U ''['' @ py_join (U '', '') (map py_repr xs) @ U '']''"
| "py_repr (JObj d) =
     U ''{'' @ py_join (U '', '') (map (\<lambda>(k, v). repr_str k @ U '': '' @ py_repr v) d) @ U ''}''"

text \<open>
  What an f-string writes for a value, \<^verbatim>\<open>str(v)\<close>: a string as it is, every other
  value as \<^verbatim>\<open>repr\<close> writes it.
\<close>

fun py_str :: "json \<Rightarrow> ustring" where
  "py_str (JStr s) = s"
| "py_str v = py_repr v"


section \<open>ScraperLogic\<close>

subsection \<open>extract_subject\<close>

definition stop_words :: "ustring list" where
  "stop_words =
     [U ''extract'', U ''find'', U ''get'', U ''the'', U ''a'', U ''an'', U ''of'', U ''value'',
      U ''text'', U ''name'', U ''movie'', U ''page'', U ''webpage'', U ''site'']"

definition extract_subject :: "ustring \<Rightarrow> ustring" where
  "extract_subject intent =
     (let words = findall_words (py_lower intent);
          candidates = filter (\<lambda>w. w \<notin> set stop_words) words
      in if candidates \<noteq> [] then last candidates
         else (if words \<noteq> [] then last words else U ''data''))"

subsection \<open>parse_json_ld\<close>

text \<open>
  The record under construction, \<^verbatim>\<open>data_found\<close>, is a map from field names to values.
  A script is what \<^verbatim>\<open>json.loads(script.string)\<close> gives for it: a value, or the error
  raised. Each step of the loop body returns the record as it stands and, when the step
  raised, the error; the \<^verbatim>\<open>except: continue\<close> of the loop drops the error and keeps
  the record.
\<close>

type_synonym structured_record = "ustring \<rightharpoonup> json"

text \<open>\<^verbatim>\<open>if k in data: data_found[k] = data[k]\<close>\<close>

definition copy_field :: "ustring \<Rightarrow> json \<Rightarrow> structured_record \<Rightarrow> py_error + structured_record" where
  "copy_field k data data_found =
     (case py_contains k data of
        Inl e \<Rightarrow> Inl e
      | Inr present \<Rightarrow>
          if present
          then (case py_getitem data k of
                  Inl e \<Rightarrow> Inl e
                | Inr v \<Rightarrow> Inr (data_found(k \<mapsto> v)))
          else Inr data_found)"

text \<open>The \<^verbatim>\<open>if 'offers' in data:\<close> statement with its two lines.\<close>

definition set_price :: "json \<Rightarrow> structured_record \<Rightarrow> py_error + structured_record" where
  "set_price data data_found =
     (case py_contains (U ''offers'') data of
        Inl e \<Rightarrow> Inl e
      | Inr present \<Rightarrow>
          if present
          then (case py_getitem data (U ''offers'') of
                  Inl e \<Rightarrow> Inl e
                | Inr offers \<Rightarrow>
                    (case (if is_dict offers then Inr offers else py_getitem0 offers) of
                       Inl e \<Rightarrow> Inl e
                     | Inr offer \<Rightarrow>
                         (case py_get offer (U ''priceCurrency'') (JStr (U '''')) of
                            Inl e \<Rightarrow> Inl e
                          | Inr currency \<Rightarrow>
                              (case py_get offer (U ''price'') (JStr (U '''')) of
                                 Inl e \<Rightarrow> Inl e
                               | Inr amount \<Rightarrow>
                                   Inr (data_found(U ''price'' \<mapsto>
                                          JStr (py_str currency @ U '' '' @ py_str amount)))))))
          else Inr data_found)"

text \<open>\<^verbatim>\<open>if isinstance(data, list): data = data[0] if data else {}\<close>\<close>

fun unwrap_list :: "json \<Rightarrow> json" where
  "unwrap_list (JArr []) = JObj []"
| "unwrap_list (JArr (x # xs)) = x"
| "unwrap_list v = v"

text \<open>One pass through the body of the \<^verbatim>\<open>try\<close>.\<close>

definition block_body ::
  "structured_record \<Rightarrow> py_error + json \<Rightarrow> structured_record \<times> py_error option" where
  "block_body data_found loaded =
     (case loaded of
        Inl e \<Rightarrow> (data_found, Some e)
      | Inr loaded_value \<Rightarrow>
          (let data = unwrap_list loaded_value
           in case copy_field (U ''name'') data data_found of
                Inl e \<Rightarrow> (data_found, Some e)
              | Inr df1 \<Rightarrow>
                  (case copy_field (U ''description'') data df1 of
                     Inl e \<Rightarrow> (df1, Some e)
                   | Inr df2 \<Rightarrow>
                       (case set_price data df2 of
                          Inl e \<Rightarrow> (df2, Some e)
                        | Inr df3 \<Rightarrow> (df3, None)))))"

definition parse_json_ld :: "(py_error + json) list \<Rightarrow> structured_record" where
  "parse_json_ld scripts =
     fold (\<lambda>script data_found. fst (block_body data_found script)) scripts Map.empty"

subsection \<open>smart_clean_html\<close>

text \<open>
  The parser's work (lines 61 to 74 of the source) is given by its two results:
  \<open>body_text\<close>, the serialized \<^verbatim>\<open>body\<close> of the cleaned tree, and \<open>text_structure\<close>,
  its flattened text. The function below is the windowing that follows. A keyword that
  is \<^verbatim>\<open>None\<close> or the empty string is falsy.
\<close>

definition smart_clean_html :: "ustring \<Rightarrow> ustring \<Rightarrow> ustring option \<Rightarrow> ustring \<times> ustring" where
  "smart_clean_html body_text text_structure target_keyword =
     (case target_keyword of
        None \<Rightarrow> (take 4000 body_text, text_structure)
      | Some keyword \<Rightarrow>
          if keyword = [] then (take 4000 body_text, text_structure)
          else
            (let idx = py_find (py_lower body_text) (py_lower keyword)
             in if idx \<noteq> -1
                then (let start = max 0 (idx - 500);
                          end = min (int (length body_text)) (idx + 1500)
                      in (U ''...'' @ py_slice body_text start end @ U ''...'', text_structure))
                else (take 4000 body_text, text_structure)))"

section \<open>The world outside the script\<close>

text \<open>
  What the parser finds in a page: the result of \<^verbatim>\<open>json.loads\<close> on each
  \<^verbatim>\<open>application/ld+json\<close> script, the behaviour of \<^verbatim>\<open>soup.select_one\<close> (it raises,
  finds nothing, or finds a first element, given by its \<^verbatim>\<open>get_text(strip=True)\<close>),
  and the two strings that \<^verbatim>\<open>smart_clean_html\<close> computes from its own parse.
\<close>

record page =
  ld_json_scripts :: "(py_error + json) list"
  select_one :: "ustring \<Rightarrow> py_error + ustring option"
  body_text :: ustring
  text_structure :: ustring

record ollama_request =
  model :: ustring
  prompt :: ustring
  stream :: bool
  temperature :: rat
  num_ctx :: nat
  stop :: "ustring list"

text \<open>
  A response of the inference server: its status code and what
  \<^verbatim>\<open>response.json()['response']\<close> evaluates to.
\<close>

record http_response =
  status_code :: nat
  response_field :: "py_error + json"

record world =
  SELENIUM_AVAILABLE :: bool
  chrome_launch :: "py_error option"
  driver_get :: "ustring \<Rightarrow> py_error option"
  page_source :: "py_error + ustring"
  driver_quit :: "py_error option"
  requests_get :: "ustring \<Rightarrow> ustring \<Rightarrow> nat \<Rightarrow> py_error + ustring"
  requests_post :: "ustring \<Rightarrow> ollama_request \<Rightarrow> nat \<Rightarrow> py_error + http_response"
  soup :: "ustring \<Rightarrow> page"

definition OLLAMA_URL :: ustring where
  "OLLAMA_URL = U ''http://localhost:11434/api/generate''"

definition OLLAMA_MODEL :: ustring where
  "OLLAMA_MODEL = U ''dom-specialist''"

definition ANTI_BOT_SITES :: "ustring list" where
  "ANTI_BOT_SITES = [U ''stockx.com'', U ''nike.com'', U ''adidas.com'', U ''footlocker.com'', U ''shopify.com'']"

definition nl :: ustring where
  "nl = [Latin1 (CHR 0x0A)]"

section \<open>The inference interface\<close>

definition ask_ollama :: "world \<Rightarrow> ustring \<Rightarrow> rat \<Rightarrow> ustring option" where
  "ask_ollama w prompt_text temp =
     (case requests_post w OLLAMA_URL
             \<lparr>model = OLLAMA_MODEL, prompt = prompt_text, stream = False, temperature = temp,
              num_ctx = 8192, stop = [U ''<|im_end|>'', nl]\<rparr> 30 of
        Inl e \<Rightarrow> None
      | Inr response \<Rightarrow>
          if status_code response = 200
          then (case response_field response of
                  Inr (JStr s) \<Rightarrow> Some (py_strip s)
                | _ \<Rightarrow> None)
          else None)"

definition generate_selector :: "world \<Rightarrow> ustring \<Rightarrow> ustring \<Rightarrow> ustring option" where
  "generate_selector w html_snippet intent =
     ask_ollama w
       (U ''<|im_start|>system'' @ nl
        @ U ''You are a DOM-aware agent. Return ONLY the CSS selector for the user's intent. Do not explain.<|im_end|>'' @ nl
        @ U ''<|im_start|>user'' @ nl
        @ U ''Intent: '' @ intent @ nl
        @ U ''HTML:'' @ nl
        @ html_snippet @ U ''<|im_end|>'' @ nl
        @ U ''<|im_start|>assistant'' @ nl)
       (1 / 10)"

definition direct_extraction :: "world \<Rightarrow> ustring \<Rightarrow> ustring \<Rightarrow> ustring option" where
  "direct_extraction w text_context intent =
     ask_ollama w
       (U ''<|im_start|>system'' @ nl
        @ U ''Extract the exact answer. '' @ nl
        @ U ''- Return ONLY the entity requested.'' @ nl
        @ U ''- If asked for Director, do NOT return Actors.'' @ nl
        @ U ''- If asked for Price, do NOT return Tax.<|im_end|>'' @ nl
        @ U ''<|im_start|>user'' @ nl
        @ U ''Request: '' @ intent @ nl
        @ U ''Context:'' @ nl
        @ text_context @ U ''<|im_end|>'' @ nl
        @ U ''<|im_start|>assistant'' @ nl)
       (1 / 20)"

section \<open>fetch_html\<close>

text \<open>
  The function returns, with its result, the calls it made to the browser and to the
  HTTP library, in order. The result is \<open>Inl e\<close> when the call raises \<open>e\<close>, otherwise
  what it returns: \<^verbatim>\<open>None\<close> or the page's text.
\<close>

datatype fetch_event =
  Toast | ChromeLaunch | DriverGet ustring | Sleep nat | ReadPageSource | DriverQuit
  | RequestsGet ustring ustring nat

definition USER_AGENT :: ustring where
  "USER_AGENT = U ''Mozilla/5.0 (Macintosh; Intel Mac OS X 10_15_7)''"

definition is_hard_target :: "ustring \<Rightarrow> bool" where
  "is_hard_target url = list_ex (\<lambda>x. py_in_str x url) ANTI_BOT_SITES"

text \<open>The body of the \<^verbatim>\<open>try\<close> in the browser branch.\<close>

definition stealth_try :: "world \<Rightarrow> ustring \<Rightarrow> fetch_event list \<times> (py_error + ustring)" where
  "stealth_try w url =
     (case driver_get w url of
        Some e \<Rightarrow> ([DriverGet url], Inl e)
      | None \<Rightarrow>
          (case page_source w of
             Inl e \<Rightarrow> ([DriverGet url, Sleep 5, ReadPageSource], Inl e)
           | Inr html \<Rightarrow> ([DriverGet url, Sleep 5, ReadPageSource], Inr html)))"

text \<open>
  The browser branch: the driver is created before the \<^verbatim>\<open>try\<close>; the \<^verbatim>\<open>finally\<close> clause
  calls \<^verbatim>\<open>driver.quit()\<close> after the body, however the body ended, and an error raised by
  \<^verbatim>\<open>quit\<close> itself replaces the body's result.
\<close>

definition stealth_fetch :: "world \<Rightarrow> ustring \<Rightarrow> fetch_event list \<times> (py_error + ustring option)" where
  "stealth_fetch w url =
     (case chrome_launch w of
        Some e \<Rightarrow> ([Toast, ChromeLaunch], Inl e)
      | None \<Rightarrow>
          (let (events, result) = stealth_try w url
           in ([Toast, ChromeLaunch] @ events @ [DriverQuit],
               (case driver_quit w of
                  Some e \<Rightarrow> Inl e
                | None \<Rightarrow> (case result of Inl e \<Rightarrow> Inl e | Inr html \<Rightarrow> Inr (Some html))))))"

definition direct_fetch :: "world \<Rightarrow> ustring \<Rightarrow> fetch_event list \<times> (py_error + ustring option)" where
  "direct_fetch w url =
     ([RequestsGet url USER_AGENT 10],
      (case requests_get w url USER_AGENT 10 of
         Inl e \<Rightarrow> Inr None
       | Inr text \<Rightarrow> Inr (Some text)))"

definition fetch_html :: "world \<Rightarrow> ustring \<Rightarrow> fetch_event list \<times> (py_error + ustring option)" where
  "fetch_html w url =
     (if is_hard_target url \<and> SELENIUM_AVAILABLE w then stealth_fetch w url
      else direct_fetch w url)"

section \<open>The main script: one run of the agent\<close>

text \<open>
  A run is what happens after the button is pressed. It returns the stages it entered,
  in order (each stage announces itself with a \<^verbatim>\<open>status.write\<close> before it works), and
  how it ended. \<^verbatim>\<open>st.stop()\<close> ends the run where it is called: it places a stop request
  that ends the script at the next call into the user interface, so the bare
  \<^verbatim>\<open>except\<close> around the selector, whose handler makes such a call first, does not
  resume the run.
\<close>

datatype stage = CacheCheck | StructuredDataCheck | SelectorHealing | TextFallback

datatype outcome =
  MissingInput
  | FetchRaised py_error
  | LoadFailed
  | FoundInMetadata ustring
  | HealedSelector ustring
  | HealedText ustring
  | AllStrategiesFailed

text \<open>
  \<^verbatim>\<open>soup.select_one(new_selector)\<close>, where \<open>new_selector\<close> may be \<^verbatim>\<open>None\<close>: the selector
  parser then raises, since \<^verbatim>\<open>None\<close> has no string methods.
\<close>

definition soup_select_one :: "page \<Rightarrow> ustring option \<Rightarrow> py_error + ustring option" where
  "soup_select_one pg new_selector =
     (case new_selector of
        None \<Rightarrow> Inl AttributeError
      | Some sel \<Rightarrow> select_one pg sel)"

text \<open>
  Lines 239 to 248: the \<^verbatim>\<open>try\<close> around the candidate selector. \<open>Some result\<close> is the
  success branch; \<open>None\<close> is every way of leaving the statement without success, the
  bare \<^verbatim>\<open>except\<close> included.
\<close>

definition try_selector :: "page \<Rightarrow> ustring option \<Rightarrow> ustring option" where
  "try_selector pg new_selector =
     (case soup_select_one pg new_selector of
        Inl e \<Rightarrow> None
      | Inr None \<Rightarrow> None
      | Inr (Some element_text) \<Rightarrow>
          if length element_text > 0 then Some element_text else None)"

text \<open>Lines 250 to 259.\<close>

definition text_fallback :: "world \<Rightarrow> ustring \<Rightarrow> ustring \<Rightarrow> outcome" where
  "text_fallback w text_struct intent =
     (case direct_extraction w (take 4000 text_struct) intent of
        None \<Rightarrow> AllStrategiesFailed
      | Some direct_result \<Rightarrow>
          if direct_result \<noteq> [] then HealedText direct_result else AllStrategiesFailed)"

text \<open>Lines 227 to 259: the healing protocol, entered when the metadata did not answer.\<close>

definition heal :: "world \<Rightarrow> page \<Rightarrow> ustring \<Rightarrow> ustring \<Rightarrow> stage list \<times> outcome" where
  "heal w pg intent subject =
     (let (focused_html, text_struct) =
            smart_clean_html (body_text pg) (text_structure pg) (Some subject);
          new_selector = generate_selector w focused_html intent
      in case try_selector pg new_selector of
           Some result \<Rightarrow> ([SelectorHealing], HealedSelector result)
         | None \<Rightarrow> ([SelectorHealing, TextFallback], text_fallback w text_struct intent))"

text \<open>Lines 209 to 225, then the healing protocol.\<close>

definition run_stages :: "world \<Rightarrow> page \<Rightarrow> ustring \<Rightarrow> bool \<Rightarrow> stage list \<times> outcome" where
  "run_stages w pg intent simulate_break =
     (let cache_stage = (if simulate_break then [CacheCheck] else []);
          json_data = parse_json_ld (ld_json_scripts pg);
          subject = extract_subject intent
      in if py_in_str (U ''price'') subject \<and> json_data (U ''price'') \<noteq> None
         then (cache_stage @ [StructuredDataCheck],
               FoundInMetadata (py_str (the (json_data (U ''price'')))))
         else (let (stages, result) = heal w pg intent subject
               in (cache_stage @ [StructuredDataCheck] @ stages, result)))"

definition launch_agent :: "world \<Rightarrow> ustring \<Rightarrow> ustring \<Rightarrow> bool \<Rightarrow> stage list \<times> outcome" where
  "launch_agent w url intent simulate_break =
     (if url = [] \<or> intent = [] then ([], MissingInput)
      else
        (case snd (fetch_html w url) of
           Inl e \<Rightarrow> ([], FetchRaised e)
         | Inr None \<Rightarrow> ([], LoadFailed)
         | Inr (Some html) \<Rightarrow>
             if html = [] then ([], LoadFailed)
             else run_stages w (soup w html) intent simulate_break))"

fun stage_rank :: "stage \<Rightarrow> nat" where
  "stage_rank CacheCheck = 1"
| "stage_rank StructuredDataCheck = 2"
| "stage_rank SelectorHealing = 3"
| "stage_rank TextFallback = 4"

section \<open>A concrete page and world for the examples\<close>

text \<open>
  A product page with one structured-data block and one price element, and a world in
  which every backend answers: the page is served over HTTP, the browser works, and the
  inference server returns a selector to the low-temperature selector request and a
  value to the extraction request.
\<close>

definition example_page :: page where
  "example_page =
     \<lparr>ld_json_scripts =
        [Inr (JObj [(U ''name'', JStr (U ''A Light in the Attic'')),
                    (U ''description'', JStr (U ''A book of poems'')),
                    (U ''offers'', JObj [(U ''priceCurrency'', JStr (U ''GBP'')), (U ''price'', JStr (U ''24.99''))])])],
      select_one = (\<lambda>sel. if sel = U ''p.price_color'' then Inr (Some (U ''51.77'')) else Inr None),
      body_text = U ''<body><h1>A Light in the Attic</h1><p class=price_color>51.77</p></body>'',
      text_structure = U ''A Light in the Attic'' @ [Latin1 (CHR 0x0A)] @ U ''51.77''\<rparr>"

definition example_world :: world where
  "example_world =
     \<lparr>SELENIUM_AVAILABLE = True,
      chrome_launch = None,
      driver_get = (\<lambda>url. None),
      page_source = Inr (U ''<html>rendered</html>''),
      driver_quit = None,
      requests_get = (\<lambda>url agent timeout. Inr (U ''<html>served</html>'')),
      requests_post = (\<lambda>url request timeout.
         if temperature request = 1 / 10
         then Inr \<lparr>status_code = 200, response_field = Inr (JStr (U ''p.price_color ''))\<rparr>
         else Inr \<lparr>status_code = 200, response_field = Inr (JStr (U '' 51.77''))\<rparr>),
      soup = (\<lambda>html. example_page)\<rparr>"

text \<open>
  A page on which lowering changes the length of the text before the keyword: 300
  capital letters I with a dot above, 400 letters \<^verbatim>\<open>z\<close>, the keyword in capitals and
  2000 letters \<^verbatim>\<open>y\<close>, inside a \<^verbatim>\<open>body\<close> element.
\<close>

definition dotted_page :: ustring where
  "dotted_page =
     U ''<body>'' @ replicate 300 CapitalIDot @ replicate 400 (Latin1 CHR ''z'')
     @ U ''KEY'' @ replicate 2000 (Latin1 CHR ''y'') @ U ''</body>''"

section \<open>The specification's reading of the fetch decision\<close>

text \<open>
  The specification decides on the host of the URL, which the code never computes. The
  host is written here from the specification's words, to compare it with the test the
  code makes: the text after the first \<^verbatim>\<open>://\<close> (the whole URL when there is none), up to
  the first \<^verbatim>\<open>/\<close>, \<^verbatim>\<open>?\<close> or \<^verbatim>\<open>#\<close>, without user information and port. A host matches
  the list, in the loosest reading, when a listed domain occurs in it.
\<close>

fun spec_after_scheme :: "ustring \<Rightarrow> ustring option" where
  "spec_after_scheme [] = None"
| "spec_after_scheme (c # cs) =
     (if prefix (U ''://'') (c # cs) then Some (drop 3 (c # cs)) else spec_after_scheme cs)"

definition spec_url_host :: "ustring \<Rightarrow> ustring" where
  "spec_url_host url =
     (let rest = (case spec_after_scheme url of None \<Rightarrow> url | Some r \<Rightarrow> r);
          authority = takeWhile (\<lambda>c. c \<notin> set (U ''/?#'')) rest;
          hostport = (if Latin1 CHR ''@'' \<in> set authority
                      then drop 1 (dropWhile (\<lambda>c. c \<noteq> Latin1 CHR ''@'') authority)
                      else authority)
      in takeWhile (\<lambda>c. c \<noteq> Latin1 CHR '':'') hostport)"

definition spec_host_matches :: "ustring \<Rightarrow> bool" where
  "spec_host_matches url = list_ex (\<lambda>domain. py_in_str domain (spec_url_host url)) ANTI_BOT_SITES"

section \<open>String literals\<close>

lemma U_eq [simp]: "U s = U t \<longleftrightarrow> s = t"
  by (simp add: U_def inj_map_eq_map inj_def)

lemma U_Nil: "U [] = []"
  by (simp add: U_def)

lemma U_is_Nil [simp]: "U s = [] \<longleftrightarrow> s = []"
  by (simp add: U_def)

lemma U_append [simp]: "U s @ U t = U (s @ t)"
  by (simp add: U_def)

lemma U_append_assoc [simp]: "U s @ U t @ r = U (s @ t) @ r"
  by (simp add: U_def)

lemma length_U [simp]: "length (U s) = length s"
  by (simp add: U_def)

text \<open>
  The rendering on values of each kind, as Python prints them: quotes chosen by the
  content of the string, escapes for the quote, the backslash, control characters and
  the characters that are not printable.
\<close>

lemma repr_str_examples:
  "repr_str (U ''ab'') = [Latin1 (CHR 0x27)] @ U ''ab'' @ [Latin1 (CHR 0x27)]"
  "repr_str (U ''a'' @ [Latin1 (CHR 0x27)] @ U ''b'')
     = [Latin1 (CHR 0x22)] @ U ''a'' @ [Latin1 (CHR 0x27)] @ U ''b'' @ [Latin1 (CHR 0x22)]"
  "repr_str [Latin1 (CHR 0x27), Latin1 (CHR 0x22), Latin1 (CHR 0x0A), Latin1 (CHR 0xA0), CapitalIDot]
     = [Latin1 (CHR 0x27), Latin1 (CHR 0x5C), Latin1 (CHR 0x27), Latin1 (CHR 0x22),
        Latin1 (CHR 0x5C), Latin1 CHR ''n'', Latin1 (CHR 0x5C), Latin1 CHR ''x'', Latin1 CHR ''a'',
        Latin1 CHR ''0'', CapitalIDot, Latin1 (CHR 0x27)]"
  by code_simp+

lemma py_str_examples:
  "py_str (JStr (U ''GBP'')) = U ''GBP''"
  "py_str (JInt 1234) = U ''1234''"
  "py_str (JInt (- 70)) = U ''-70''"
  "py_str (JFloat ''100.0'') = U ''100.0''"
  "py_str JNull = U ''None''"
  "py_str (JBool False) = U ''False''"
  "py_str (JArr []) = U ''[]''"
  "py_str (JObj [(U ''a'', JInt 1), (U ''b'', JStr (U ''x''))]) = U ''{'a': 1, 'b': 'x'}''"
  by code_simp+

section \<open>Properties of the structured-data extractor\<close>

subsection \<open>How one block changes the record\<close>

lemma copy_field_override:
  "copy_field k data df =
     (case copy_field k data Map.empty of Inl e \<Rightarrow> Inl e | Inr m \<Rightarrow> Inr (df ++ m))"
  by (simp add: copy_field_def split: sum.splits)

lemma set_price_override:
  "set_price data df =
     (case set_price data Map.empty of Inl e \<Rightarrow> Inl e | Inr m \<Rightarrow> Inr (df ++ m))"
  by (simp add: set_price_def split: sum.splits)

text \<open>
  A block writes the same fields whatever the record holds already: the record after
  the block is the old record, overridden by what the block writes into an empty one.
\<close>

lemma block_body_override:
  "fst (block_body data_found script) = data_found ++ fst (block_body Map.empty script)"
proof (cases script)
  case (Inl e)
  then show ?thesis by (simp add: block_body_def)
next
  case (Inr v)
  define data where "data = unwrap_list v"
  show ?thesis
  proof (cases "copy_field (U ''name'') data Map.empty")
    case n: (Inl e)
    then show ?thesis
      using Inr copy_field_override [of "(U ''name'')" data data_found]
      by (simp add: block_body_def data_def)
  next
    case n: (Inr m1)
    then have c1: "copy_field (U ''name'') data data_found = Inr (data_found ++ m1)"
      using copy_field_override [of "(U ''name'')" data data_found] by simp
    show ?thesis
    proof (cases "copy_field (U ''description'') data Map.empty")
      case d: (Inl e)
      then show ?thesis
        using Inr n c1 copy_field_override [of "(U ''description'')" data "data_found ++ m1"]
          copy_field_override [of "(U ''description'')" data m1]
        by (simp add: block_body_def data_def)
    next
      case d: (Inr m2)
      then have c2: "copy_field (U ''description'') data (data_found ++ m1) = Inr (data_found ++ m1 ++ m2)"
        and c2': "copy_field (U ''description'') data m1 = Inr (m1 ++ m2)"
        using copy_field_override [of "(U ''description'')" data "data_found ++ m1"]
          copy_field_override [of "(U ''description'')" data m1] by simp_all
      show ?thesis
        using Inr n c1 c2 c2' set_price_override [of data "data_found ++ m1 ++ m2"]
          set_price_override [of data "m1 ++ m2"]
        by (simp add: block_body_def data_def split: sum.splits)
    qed
  qed
qed

lemma parse_json_ld_snoc:
  "parse_json_ld (scripts @ [script]) = fst (block_body (parse_json_ld scripts) script)"
  by (simp add: parse_json_ld_def)

lemma parse_json_ld_single:
  "parse_json_ld [script] = fst (block_body Map.empty script)"
  by (simp add: parse_json_ld_def)

lemma copy_field_object:
  "copy_field k (JObj d) df = Inr (case map_of d k of None \<Rightarrow> df | Some v \<Rightarrow> df(k \<mapsto> v))"
  by (auto simp: copy_field_def split: option.splits)

lemma set_price_offer:
  assumes "map_of d (U ''offers'') = Some offers"
    and "offers = JObj offer \<or> offers = JArr (JObj offer # rest)"
  shows "set_price (JObj d) df =
     Inr (df(U ''price'' \<mapsto>
            JStr (py_str (case map_of offer (U ''priceCurrency'') of None \<Rightarrow> JStr (U '''') | Some v \<Rightarrow> v)
                  @ U '' ''
                  @ py_str (case map_of offer (U ''price'') of None \<Rightarrow> JStr (U '''') | Some v \<Rightarrow> v))))"
  using assms by (auto simp: set_price_def)

lemma set_price_empty_offers:
  assumes "map_of d (U ''offers'') = Some (JArr [])"
  shows "set_price (JObj d) df = Inl IndexError"
  using assms by (simp add: set_price_def)

lemma set_price_other_field:
  assumes "set_price data df = Inr df'" and "k \<noteq> (U ''price'')"
  shows "df' k = df k"
  using assms by (auto simp: set_price_def split: sum.splits if_splits)

lemma block_body_object:
  "block_body df (Inr (JObj d)) =
    (let df1 = (case map_of d (U ''name'') of None \<Rightarrow> df | Some v \<Rightarrow> df(U ''name'' \<mapsto> v));
         df2 = (case map_of d (U ''description'') of None \<Rightarrow> df1 | Some v \<Rightarrow> df1(U ''description'' \<mapsto> v))
     in case set_price (JObj d) df2 of Inl e \<Rightarrow> (df2, Some e) | Inr df3 \<Rightarrow> (df3, None))"
  by (simp add: block_body_def copy_field_object Let_def)

lemma block_body_object_name:
  assumes "map_of d (U ''name'') = Some n"
  shows "fst (block_body df (Inr (JObj d))) (U ''name'') = Some n"
proof -
  define df2 where
    "df2 = (case map_of d (U ''description'') of None \<Rightarrow> df(U ''name'' \<mapsto> n)
            | Some v \<Rightarrow> (df(U ''name'' \<mapsto> n))(U ''description'' \<mapsto> v))"
  have df2: "df2 (U ''name'') = Some n"
    by (simp add: df2_def split: option.splits)
  show ?thesis
  proof (cases "set_price (JObj d) df2")
    case (Inl e)
    then show ?thesis
      using assms df2 by (simp add: block_body_object df2_def Let_def split: option.splits)
  next
    case (Inr df3)
    then have "df3 (U ''name'') = df2 (U ''name'')"
      by (rule set_price_other_field) simp
    then show ?thesis
      using assms df2 Inr by (simp add: block_body_object df2_def Let_def split: option.splits)
  qed
qed

lemma block_body_object_description:
  assumes "map_of d (U ''description'') = Some dsc"
  shows "fst (block_body df (Inr (JObj d))) (U ''description'') = Some dsc"
proof -
  define df2 where
    "df2 = (case map_of d (U ''name'') of None \<Rightarrow> df | Some v \<Rightarrow> df(U ''name'' \<mapsto> v))(U ''description'' \<mapsto> dsc)"
  have df2: "df2 (U ''description'') = Some dsc"
    by (simp add: df2_def)
  show ?thesis
  proof (cases "set_price (JObj d) df2")
    case (Inl e)
    then show ?thesis
      using assms df2 by (simp add: block_body_object df2_def Let_def split: option.splits)
  next
    case (Inr df3)
    then have "df3 (U ''description'') = df2 (U ''description'')"
      by (rule set_price_other_field) simp
    then show ?thesis
      using assms df2 Inr by (simp add: block_body_object df2_def Let_def split: option.splits)
  qed
qed

subsection \<open>Which block wins\<close>

text \<open>
  C2, as the specification states it: a field keeps the value of the first block that
  provides it. The code assigns without looking at the record, so with two blocks that
  both carry a name the record ends with the name of the second.
\<close>

theorem parse_json_ld_first_wins_counterexample:
  "parse_json_ld [Inr (JObj [(U ''name'', JStr (U ''First''))])] (U ''name'')
     = Some (JStr (U ''First''))
   \<and> parse_json_ld
       [Inr (JObj [(U ''name'', JStr (U ''First''))]), Inr (JObj [(U ''name'', JStr (U ''Second''))])] (U ''name'')
     = Some (JStr (U ''Second''))"
  by (simp add: parse_json_ld_def block_body_def copy_field_def set_price_def)

text \<open>
  C2, amended: the last block wins. For every field, the record after one more block
  holds what that block alone writes for the field, and the earlier value only where
  the block writes nothing; a block that is an object with a \<^verbatim>\<open>name\<close> (a
  \<^verbatim>\<open>description\<close>) writes it, whatever the earlier blocks have set.
\<close>

theorem parse_json_ld_last_wins:
  "parse_json_ld (scripts @ [script]) field =
     (case parse_json_ld [script] field of
        Some v \<Rightarrow> Some v
      | None \<Rightarrow> parse_json_ld scripts field)
   \<and> (map_of d (U ''name'') = Some n \<longrightarrow>
        parse_json_ld (scripts @ [Inr (JObj d)]) (U ''name'') = Some n)
   \<and> (map_of d (U ''description'') = Some dsc \<longrightarrow>
        parse_json_ld (scripts @ [Inr (JObj d)]) (U ''description'') = Some dsc)"
proof (intro conjI impI)
  show "parse_json_ld (scripts @ [script]) field =
     (case parse_json_ld [script] field of
        Some v \<Rightarrow> Some v
      | None \<Rightarrow> parse_json_ld scripts field)"
    by (simp add: parse_json_ld_snoc parse_json_ld_single
        block_body_override [of "parse_json_ld scripts"] map_add_def)
next
  assume "map_of d (U ''name'') = Some n"
  then show "parse_json_ld (scripts @ [Inr (JObj d)]) (U ''name'') = Some n"
    by (simp add: parse_json_ld_snoc block_body_object_name)
next
  assume "map_of d (U ''description'') = Some dsc"
  then show "parse_json_ld (scripts @ [Inr (JObj d)]) (U ''description'') = Some dsc"
    by (simp add: parse_json_ld_snoc block_body_object_description)
qed

theorem parse_json_ld_last_wins_witness:
  "map_of [(U ''name'', JStr (U ''Second'')), (U ''description'', JStr (U ''Later''))] (U ''name'')
     = Some (JStr (U ''Second''))
   \<and> map_of [(U ''name'', JStr (U ''Second'')), (U ''description'', JStr (U ''Later''))] (U ''description'')
     = Some (JStr (U ''Later''))
   \<and> parse_json_ld
        ([Inr (JObj [(U ''name'', JStr (U ''First'')), (U ''description'', JStr (U ''Earlier''))])]
         @ [Inr (JObj [(U ''name'', JStr (U ''Second'')), (U ''description'', JStr (U ''Later''))])]) (U ''name'')
     = Some (JStr (U ''Second''))
   \<and> parse_json_ld
        ([Inr (JObj [(U ''name'', JStr (U ''First'')), (U ''description'', JStr (U ''Earlier''))])]
         @ [Inr (JObj [(U ''name'', JStr (U ''Second'')), (U ''description'', JStr (U ''Later''))])]) (U ''description'')
     = Some (JStr (U ''Later''))"
  using parse_json_ld_last_wins
    [of "[Inr (JObj [(U ''name'', JStr (U ''First'')), (U ''description'', JStr (U ''Earlier''))])]"
      "Inr (JObj [(U ''name'', JStr (U ''Second'')), (U ''description'', JStr (U ''Later''))])" "(U ''name'')"
      "[(U ''name'', JStr (U ''Second'')), (U ''description'', JStr (U ''Later''))]"
      "JStr (U ''Second'')" "JStr (U ''Later'')"]
  by (simp add: parse_json_ld_def block_body_def copy_field_def set_price_def)

subsection \<open>The price field\<close>

lemma fold_block_body_override:
  "fold (\<lambda>script data_found. fst (block_body data_found script)) scripts df
     = df ++ fold (\<lambda>script data_found. fst (block_body data_found script)) scripts Map.empty"
proof (induction scripts rule: rev_induct)
  case Nil
  then show ?case by simp
next
  case (snoc script scripts)
  define before where
    "before = fold (\<lambda>script data_found. fst (block_body data_found script)) scripts Map.empty"
  have "fst (block_body (df ++ before) script) = (df ++ before) ++ fst (block_body Map.empty script)"
    by (rule block_body_override)
  moreover have "fst (block_body before script) = before ++ fst (block_body Map.empty script)"
    by (rule block_body_override)
  ultimately show ?case
    using snoc by (simp add: before_def)
qed

lemma parse_json_ld_append:
  "parse_json_ld (scripts @ later) field =
     (case parse_json_ld later field of
        Some v \<Rightarrow> Some v
      | None \<Rightarrow> parse_json_ld scripts field)"
proof -
  have "parse_json_ld (scripts @ later) = parse_json_ld scripts ++ parse_json_ld later"
    unfolding parse_json_ld_def fold_append comp_def
    by (rule fold_block_body_override)
  then show ?thesis
    by (simp add: map_add_def split: option.splits)
qed

text \<open>
  C4, as the specification states it: every well-formed block with an \<^verbatim>\<open>offers\<close> object
  gives its own currency and amount to the price field. With two such blocks on a page
  the second assignment replaces the first: the first block offers \<^verbatim>\<open>GBP 24.99\<close>, and
  the price field of the record is \<^verbatim>\<open>USD 10\<close>.
\<close>

theorem parse_json_ld_price_counterexample:
  "parse_json_ld
      [Inr (JObj [(U ''offers'', JObj [(U ''priceCurrency'', JStr (U ''GBP'')),
                                      (U ''price'', JStr (U ''24.99''))])])] (U ''price'')
     = Some (JStr (U ''GBP 24.99''))
   \<and> parse_json_ld
      [Inr (JObj [(U ''offers'', JObj [(U ''priceCurrency'', JStr (U ''GBP'')),
                                      (U ''price'', JStr (U ''24.99''))])]),
       Inr (JObj [(U ''offers'', JObj [(U ''priceCurrency'', JStr (U ''USD'')),
                                      (U ''price'', JInt 10)])])] (U ''price'')
     = Some (JStr (U ''USD 10''))"
  by (simp add: parse_json_ld_def block_body_def copy_field_def set_price_def
      dec_int_def digit_char_def)

text \<open>
  C4, amended: let the block be an object (or a list that starts with one) whose
  \<^verbatim>\<open>offers\<close> is an object, or a list that starts with an object, and let no later block
  write a price. Then the price field of the record is the offer's \<^verbatim>\<open>priceCurrency\<close>,
  one space, and the offer's \<^verbatim>\<open>price\<close>, each written as \<^verbatim>\<open>str\<close> writes it (a string as
  it is, a number in decimal) and each replaced by the empty string when the offer
  lacks it; the block raises no error. Blocks before it have no influence.
\<close>

theorem parse_json_ld_price:
  assumes "unwrap_list loaded = JObj d"
    and "map_of d (U ''offers'') = Some offers"
    and "offers = JObj offer \<or> offers = JArr (JObj offer # rest)"
    and "parse_json_ld later (U ''price'') = None"
  shows "parse_json_ld (scripts @ [Inr loaded] @ later) (U ''price'')
           = Some (JStr (py_str (case map_of offer (U ''priceCurrency'') of
                                   None \<Rightarrow> JStr (U '''') | Some v \<Rightarrow> v)
                         @ U '' ''
                         @ py_str (case map_of offer (U ''price'') of
                                     None \<Rightarrow> JStr (U '''') | Some v \<Rightarrow> v)))
         \<and> snd (block_body (parse_json_ld scripts) (Inr loaded)) = None"
proof -
  have "block_body df (Inr loaded) = block_body df (Inr (JObj d))" for df
    using assms(1) by (simp add: block_body_def)
  then have p: "parse_json_ld (scripts @ [Inr loaded]) (U ''price'')
           = Some (JStr (py_str (case map_of offer (U ''priceCurrency'') of
                                   None \<Rightarrow> JStr (U '''') | Some v \<Rightarrow> v)
                         @ U '' ''
                         @ py_str (case map_of offer (U ''price'') of
                                     None \<Rightarrow> JStr (U '''') | Some v \<Rightarrow> v)))"
    and e: "snd (block_body (parse_json_ld scripts) (Inr loaded)) = None"
    using set_price_offer [OF assms(2,3)]
    by (simp_all add: parse_json_ld_snoc block_body_object Let_def)
  have ap: "parse_json_ld ((scripts @ [Inr loaded]) @ later) (U ''price'')
      = (case parse_json_ld later (U ''price'') of
           Some v \<Rightarrow> Some v
         | None \<Rightarrow> parse_json_ld (scripts @ [Inr loaded]) (U ''price''))"
    by (rule parse_json_ld_append)
  have "parse_json_ld ((scripts @ [Inr loaded]) @ later) (U ''price'')
      = parse_json_ld (scripts @ [Inr loaded]) (U ''price'')"
    unfolding ap assms(4) by simp
  with p e show ?thesis by simp
qed

theorem parse_json_ld_price_witness:
  "parse_json_ld [Inr (JObj [(U ''name'', JStr (U ''Attic''))])] (U ''price'') = None
   \<and> parse_json_ld
      ([Inr (JObj [(U ''offers'', JObj [(U ''priceCurrency'', JStr (U ''GBP'')),
                                       (U ''price'', JStr (U ''24.99''))])])]
       @ [Inr (JObj [(U ''offers'', JObj [(U ''priceCurrency'', JStr (U ''USD'')),
                                         (U ''price'', JInt 10)])])]
       @ [Inr (JObj [(U ''name'', JStr (U ''Attic''))])])
      (U ''price'')
     = Some (JStr (U ''USD 10''))
   \<and> parse_json_ld
      ([] @ [Inr (JArr [JObj [(U ''offers'', JArr [JObj [(U ''price'', JFloat ''24.9'')]])]])] @ [])
      (U ''price'')
     = Some (JStr (U '' 24.9''))
   \<and> parse_json_ld
      ([] @ [Inr (JObj [(U ''offers'', JObj [(U ''priceCurrency'', JNull),
                                            (U ''price'', JInt (- 5))])])] @ [])
      (U ''price'')
     = Some (JStr (U ''None -5''))
   \<and> parse_json_ld
      [Inr (JObj [(U ''offers'', JObj [(U ''priceCurrency'', JBool True),
                   (U ''price'', JArr [JInt 1, JStr (U ''ab''), JObj [(U ''k'', JNull)]])])])]
      (U ''price'')
     = Some (JStr (U ''True [1, 'ab', {'k': None}]''))"
proof -
  have n: "parse_json_ld [Inr (JObj [(U ''name'', JStr (U ''Attic''))])] (U ''price'') = None"
    by (simp add: parse_json_ld_def block_body_def copy_field_def set_price_def)
  have e: "parse_json_ld [] (U ''price'') = None"
    by (simp add: parse_json_ld_def)
  have a: "parse_json_ld
      ([Inr (JObj [(U ''offers'', JObj [(U ''priceCurrency'', JStr (U ''GBP'')),
                                       (U ''price'', JStr (U ''24.99''))])])]
       @ [Inr (JObj [(U ''offers'', JObj [(U ''priceCurrency'', JStr (U ''USD'')),
                                         (U ''price'', JInt 10)])])]
       @ [Inr (JObj [(U ''name'', JStr (U ''Attic''))])])
      (U ''price'')
     = Some (JStr (U ''USD 10''))"
    using parse_json_ld_price
      [of "JObj [(U ''offers'', JObj [(U ''priceCurrency'', JStr (U ''USD'')), (U ''price'', JInt 10)])]"
        "[(U ''offers'', JObj [(U ''priceCurrency'', JStr (U ''USD'')), (U ''price'', JInt 10)])]"
        "JObj [(U ''priceCurrency'', JStr (U ''USD'')), (U ''price'', JInt 10)]"
        "[(U ''priceCurrency'', JStr (U ''USD'')), (U ''price'', JInt 10)]" "[]"
        "[Inr (JObj [(U ''name'', JStr (U ''Attic''))])]"
        "[Inr (JObj [(U ''offers'', JObj [(U ''priceCurrency'', JStr (U ''GBP'')),
                                         (U ''price'', JStr (U ''24.99''))])])]"] n
    by (simp add: dec_int_def digit_char_def)
  have b: "parse_json_ld
      ([] @ [Inr (JArr [JObj [(U ''offers'', JArr [JObj [(U ''price'', JFloat ''24.9'')]])]])] @ [])
      (U ''price'')
     = Some (JStr (U '' 24.9''))"
    using parse_json_ld_price
      [of "JArr [JObj [(U ''offers'', JArr [JObj [(U ''price'', JFloat ''24.9'')]])]]"
        "[(U ''offers'', JArr [JObj [(U ''price'', JFloat ''24.9'')]])]"
        "JArr [JObj [(U ''price'', JFloat ''24.9'')]]"
        "[(U ''price'', JFloat ''24.9'')]" "[]" "[]" "[]"] e
    by simp
  have c: "parse_json_ld
      ([] @ [Inr (JObj [(U ''offers'', JObj [(U ''priceCurrency'', JNull),
                                            (U ''price'', JInt (- 5))])])] @ [])
      (U ''price'')
     = Some (JStr (U ''None -5''))"
    using parse_json_ld_price
      [of "JObj [(U ''offers'', JObj [(U ''priceCurrency'', JNull), (U ''price'', JInt (- 5))])]"
        "[(U ''offers'', JObj [(U ''priceCurrency'', JNull), (U ''price'', JInt (- 5))])]"
        "JObj [(U ''priceCurrency'', JNull), (U ''price'', JInt (- 5))]"
        "[(U ''priceCurrency'', JNull), (U ''price'', JInt (- 5))]" "[]" "[]" "[]"] e
    by (simp add: dec_int_def digit_char_def)
  have d: "parse_json_ld
      [Inr (JObj [(U ''offers'', JObj [(U ''priceCurrency'', JBool True),
                   (U ''price'', JArr [JInt 1, JStr (U ''ab''), JObj [(U ''k'', JNull)]])])])]
      (U ''price'')
     = Some (JStr (U ''True [1, 'ab', {'k': None}]''))"
    by code_simp
  show ?thesis
    using n a b c d by (intro conjI)
qed

subsection \<open>A block that raises half way\<close>

text \<open>
  C10: a block that is an object with a \<^verbatim>\<open>name\<close>, a \<^verbatim>\<open>description\<close> and an empty list
  as its \<^verbatim>\<open>offers\<close> raises \<^verbatim>\<open>IndexError\<close> at \<^verbatim>\<open>data['offers'][0]\<close>, after the two fields
  have been written: the record returned holds them.
\<close>

theorem parse_json_ld_partial_block:
  assumes "map_of d (U ''name'') = Some n"
    and "map_of d (U ''description'') = Some dsc"
    and "map_of d (U ''offers'') = Some (JArr [])"
  shows "block_body data_found (Inr (JObj d))
           = (data_found(U ''name'' \<mapsto> n, U ''description'' \<mapsto> dsc), Some IndexError)
         \<and> parse_json_ld (scripts @ [Inr (JObj d)])
           = (parse_json_ld scripts)(U ''name'' \<mapsto> n, U ''description'' \<mapsto> dsc)"
  using assms
  by (simp add: parse_json_ld_snoc block_body_object set_price_empty_offers)

theorem parse_json_ld_partial_block_witness:
  "block_body Map.empty
      (Inr (JObj [(U ''name'', JStr (U ''Attic'')), (U ''description'', JStr (U ''A book'')), (U ''offers'', JArr [])]))
     = ([U ''name'' \<mapsto> JStr (U ''Attic''), U ''description'' \<mapsto> JStr (U ''A book'')], Some IndexError)
   \<and> parse_json_ld
      ([] @ [Inr (JObj [(U ''name'', JStr (U ''Attic'')), (U ''description'', JStr (U ''A book'')), (U ''offers'', JArr [])])])
     = [U ''name'' \<mapsto> JStr (U ''Attic''), U ''description'' \<mapsto> JStr (U ''A book'')]"
  using parse_json_ld_partial_block
    [of "[(U ''name'', JStr (U ''Attic'')), (U ''description'', JStr (U ''A book'')), (U ''offers'', JArr [])]"
      "JStr (U ''Attic'')" "JStr (U ''A book'')" Map.empty "[]"]
  by (simp add: parse_json_ld_def)

section \<open>Properties of the subject extractor\<close>

lemma lower_latin1_idem: "lower_latin1 (lower_latin1 c) = lower_latin1 c"
  by (auto simp: lower_latin1_def Let_def)

lemma py_lower_char_fixed: "d \<in> set (py_lower_char c) \<Longrightarrow> py_lower_char d = [d]"
  by (cases c) (auto simp: lower_latin1_idem, simp add: lower_latin1_def)

lemma py_lower_fixed: "c \<in> set (py_lower s) \<Longrightarrow> py_lower_char c = [c]"
  by (auto simp: py_lower_def dest: py_lower_char_fixed)

lemma py_lower_id: "\<forall>c\<in>set t. py_lower_char c = [c] \<Longrightarrow> py_lower t = t"
  by (induction t) (auto simp: py_lower_def)

lemma findall_words_nonempty: "t \<in> set (findall_words s) \<Longrightarrow> t \<noteq> []"
  by (induction s rule: findall_words.induct) (auto split: if_splits)

lemma findall_words_chars: "t \<in> set (findall_words s) \<Longrightarrow> set t \<subseteq> set s"
  by (induction s rule: findall_words.induct)
     (auto split: if_splits dest: set_takeWhileD set_dropWhileD)

lemma findall_words_word_chars: "t \<in> set (findall_words s) \<Longrightarrow> c \<in> set t \<Longrightarrow> is_word_char c"
  by (induction s rule: findall_words.induct)
     (auto split: if_splits dest: set_takeWhileD)

lemma findall_words_empty: "findall_words s = [] \<longleftrightarrow> (\<forall>c\<in>set s. \<not> is_word_char c)"
  by (induction s rule: findall_words.induct) auto

lemma findall_words_concat: "concat (findall_words s) = filter is_word_char s"
proof (induction s rule: findall_words.induct)
  case 1
  then show ?case by simp
next
  case (2 c cs)
  have "filter is_word_char cs = takeWhile is_word_char cs @ filter is_word_char (dropWhile is_word_char cs)"
    by (metis filter_append takeWhile_dropWhile_id filter_id_conv set_takeWhileD)
  with 2 show ?case by simp
qed

lemma extract_subject_in_words:
  "findall_words (py_lower intent) \<noteq> [] \<Longrightarrow> extract_subject intent \<in> set (findall_words (py_lower intent))"
proof -
  assume w: "findall_words (py_lower intent) \<noteq> []"
  define words where "words = findall_words (py_lower intent)"
  define candidates where "candidates = filter (\<lambda>w. w \<notin> set stop_words) words"
  show ?thesis
  proof (cases "candidates = []")
    case True
    then show ?thesis using w by (simp add: extract_subject_def words_def candidates_def)
  next
    case False
    then have "last candidates \<in> set candidates" by simp
    then have "last candidates \<in> set words" by (simp add: candidates_def)
    then show ?thesis using False by (simp add: extract_subject_def words_def candidates_def Let_def)
  qed
qed


lemma word_latin1_lower: "word_latin1 (lower_latin1 c) = word_latin1 c"
  by (auto simp: lower_latin1_def word_latin1_def Let_def)

lemma is_word_char_lower: "(\<exists>d\<in>set (py_lower_char c). is_word_char d) \<longleftrightarrow> is_word_char c"
  by (cases c) (simp_all add: word_latin1_lower, simp add: word_latin1_def)

lemma py_lower_no_word:
  "(\<forall>c\<in>set (py_lower s). \<not> is_word_char c) \<longleftrightarrow> (\<forall>c\<in>set s. \<not> is_word_char c)"
proof -
  have "(\<exists>d\<in>set (py_lower s). is_word_char d) \<longleftrightarrow> (\<exists>c\<in>set s. \<exists>d\<in>set (py_lower_char c). is_word_char d)"
    by (auto simp: py_lower_def)
  then have "(\<exists>d\<in>set (py_lower s). is_word_char d) \<longleftrightarrow> (\<exists>c\<in>set s. is_word_char c)"
    by (simp add: is_word_char_lower)
  then show ?thesis
    by blast
qed

lemma last_filter_split:
  assumes "filter P xs \<noteq> []"
  shows "\<exists>pre post. xs = pre @ last (filter P xs) # post \<and> P (last (filter P xs)) \<and> (\<forall>z\<in>set post. \<not> P z)"
proof -
  from assms have "\<exists>x\<in>set xs. P x"
    by (auto simp: filter_empty_conv)
  then obtain ys x zs where xs: "xs = ys @ x # zs" and x: "P x" and zs: "\<forall>z\<in>set zs. \<not> P z"
    using split_list_last_prop [of xs P] by blast
  from zs have "filter P zs = []" by (simp add: filter_empty_conv)
  with xs x have "last (filter P xs) = x" by simp
  with xs x zs have "xs = ys @ last (filter P xs) # zs \<and> P (last (filter P xs))
      \<and> (\<forall>z\<in>set zs. \<not> P z)"
    by simp
  then show ?thesis by blast
qed

text \<open>
  C8: for every intent the subject is a non-empty token that lowering leaves unchanged.
  When some word of the lowered intent is not a stop word, the subject is the last such
  word; when every word is a stop word, it is the last word; when the intent has no
  word character at all (the empty intent among them), it is \<^verbatim>\<open>data\<close>.
\<close>

theorem extract_subject_token:
  "extract_subject intent \<noteq> []
   \<and> py_lower (extract_subject intent) = extract_subject intent
   \<and> ((\<exists>t\<in>set (findall_words (py_lower intent)). t \<notin> set stop_words) \<longrightarrow>
        (\<exists>pre post. findall_words (py_lower intent) = pre @ extract_subject intent # post
           \<and> extract_subject intent \<notin> set stop_words \<and> set post \<subseteq> set stop_words))
   \<and> (findall_words (py_lower intent) \<noteq> [] \<and> set (findall_words (py_lower intent)) \<subseteq> set stop_words \<longrightarrow>
        extract_subject intent = last (findall_words (py_lower intent)))
   \<and> (findall_words (py_lower intent) = [] \<longrightarrow> extract_subject intent = U ''data'')
   \<and> (findall_words (py_lower intent) = [] \<longleftrightarrow> (\<forall>c\<in>set intent. \<not> is_word_char c))
   \<and> extract_subject [] = U ''data''"
proof -
  define words where "words = findall_words (py_lower intent)"
  define candidates where "candidates = filter (\<lambda>w. w \<notin> set stop_words) words"
  have es: "extract_subject intent =
      (if candidates \<noteq> [] then last candidates else if words \<noteq> [] then last words else (U ''data''))"
    by (simp add: extract_subject_def words_def candidates_def Let_def)
  have nonempty: "extract_subject intent \<noteq> []"
  proof (cases "words = []")
    case True
    then show ?thesis by (simp add: es candidates_def)
  next
    case False
    then show ?thesis
      using extract_subject_in_words [of intent] findall_words_nonempty
      by (auto simp: words_def)
  qed
  have lower: "py_lower (extract_subject intent) = extract_subject intent"
  proof (cases "words = []")
    case True
    then have "extract_subject intent = U ''data''" by (simp add: es candidates_def)
    moreover have "py_lower (U ''data'') = U ''data''"
      by code_simp
    ultimately show ?thesis by simp
  next
    case False
    then have "extract_subject intent \<in> set (findall_words (py_lower intent))"
      using extract_subject_in_words [of intent] by (simp add: words_def)
    then have "set (extract_subject intent) \<subseteq> set (py_lower intent)"
      by (rule findall_words_chars)
    then have "\<forall>c\<in>set (extract_subject intent). py_lower_char c = [c]"
      by (auto dest: py_lower_fixed)
    then show ?thesis
      by (rule py_lower_id)
  qed
  have cand: "(\<exists>t\<in>set words. t \<notin> set stop_words) \<longrightarrow>
        (\<exists>pre post. words = pre @ extract_subject intent # post
           \<and> extract_subject intent \<notin> set stop_words \<and> set post \<subseteq> set stop_words)"
  proof
    assume "\<exists>t\<in>set words. t \<notin> set stop_words"
    then have ne: "candidates \<noteq> []"
      by (auto simp: candidates_def filter_empty_conv)
    then have "extract_subject intent = last candidates" by (simp add: es)
    with last_filter_split [of "\<lambda>w. w \<notin> set stop_words" words] ne
    show "\<exists>pre post. words = pre @ extract_subject intent # post
           \<and> extract_subject intent \<notin> set stop_words \<and> set post \<subseteq> set stop_words"
      unfolding candidates_def by auto
  qed
  have allstop: "words \<noteq> [] \<and> set words \<subseteq> set stop_words \<longrightarrow> extract_subject intent = last words"
  proof
    assume a: "words \<noteq> [] \<and> set words \<subseteq> set stop_words"
    then have "candidates = []" by (auto simp: candidates_def filter_empty_conv)
    with a show "extract_subject intent = last words" by (simp add: es)
  qed
  have none: "words = [] \<longrightarrow> extract_subject intent = U ''data''"
    by (simp add: es candidates_def)
  have empty_iff: "words = [] \<longleftrightarrow> (\<forall>c\<in>set intent. \<not> is_word_char c)"
    by (simp add: words_def findall_words_empty py_lower_no_word)
  have nil: "extract_subject [] = U ''data''"
    by (simp add: extract_subject_def py_lower_def)
  show ?thesis
    using nonempty lower cand allstop none empty_iff nil
    unfolding words_def by (intro conjI)
qed

theorem extract_subject_token_witness:
  "findall_words (py_lower (U ''Extract the movie director name''))
     = [U ''extract'', U ''the'', U ''movie'', U ''director'', U ''name'']
   \<and> (U ''director'') \<notin> set stop_words
   \<and> extract_subject (U ''Extract the movie director name'') = U ''director''
   \<and> extract_subject (U ''Extract the movie director name'') \<noteq> []
   \<and> py_lower (extract_subject (U ''Extract the movie director name''))
       = extract_subject (U ''Extract the movie director name'')"
proof -
  have w: "findall_words (py_lower (U ''Extract the movie director name''))
     = [U ''extract'', U ''the'', U ''movie'', U ''director'', U ''name'']"
    by code_simp
  have s: "(U ''director'') \<notin> set stop_words"
    by (simp add: stop_words_def)
  have e: "extract_subject (U ''Extract the movie director name'') = U ''director''"
    by code_simp
  note t = extract_subject_token [of "(U ''Extract the movie director name'')"]
  from t have n: "extract_subject (U ''Extract the movie director name'') \<noteq> []"
    by (rule conjunct1)
  from t have l: "py_lower (extract_subject (U ''Extract the movie director name''))
       = extract_subject (U ''Extract the movie director name'')"
    by (rule conjunct1 [OF conjunct2])
  show ?thesis
    using w s e n l by (intro conjI)
qed

section \<open>Properties of the HTML window\<close>

lemma py_find_least:
  "prefix sub (drop i s) \<Longrightarrow> i \<le> length s \<Longrightarrow> \<forall>j<i. \<not> prefix sub (drop j s) \<Longrightarrow> py_find s sub = int i"
proof (induction s arbitrary: i)
  case Nil
  then show ?case by simp
next
  case (Cons c cs)
  show ?case
  proof (cases i)
    case 0
    with Cons.prems show ?thesis by simp
  next
    case (Suc k)
    with Cons.prems have np: "\<not> prefix sub (c # cs)"
      by (metis drop0 zero_less_Suc)
    have "\<forall>j<k. \<not> prefix sub (drop j cs)"
    proof (intro allI impI)
      fix j assume "j < k"
      then have "Suc j < i" using Suc by simp
      with Cons.prems(3) have "\<not> prefix sub (drop (Suc j) (c # cs))" by blast
      then show "\<not> prefix sub (drop j cs)" by simp
    qed
    moreover from Cons.prems Suc have "prefix sub (drop k cs)" "k \<le> length cs" by simp_all
    ultimately have "py_find cs sub = int k" by (intro Cons.IH)
    with np Suc show ?thesis by (simp add: Let_def)
  qed
qed

lemma py_find_none:
  "\<forall>j. \<not> prefix sub (drop j s) \<Longrightarrow> py_find s sub = -1"
proof (induction s)
  case Nil
  then show ?case by (auto dest: spec [of _ 0])
next
  case (Cons c cs)
  from Cons.prems have np: "\<not> prefix sub (c # cs)"
    by (auto dest: spec [of _ 0])
  have "\<forall>j. \<not> prefix sub (drop j cs)"
  proof
    fix j
    from Cons.prems have "\<not> prefix sub (drop (Suc j) (c # cs))" by blast
    then show "\<not> prefix sub (drop j cs)" by simp
  qed
  then have "py_find cs sub = -1" by (rule Cons.IH)
  with np show ?case by (simp add: Let_def)
qed

lemma py_find_range: "py_find s sub = -1 \<or> (0 \<le> py_find s sub \<and> py_find s sub \<le> int (length s))"
  by (induction s) (auto simp: Let_def)

lemma py_in_str_iff: "py_in_str sub s \<longleftrightarrow> (\<exists>ps ss. s = ps @ sub @ ss)"
proof (induction s)
  case Nil
  then show ?case by auto
next
  case (Cons c cs)
  show ?case
  proof
    assume "py_in_str sub (c # cs)"
    then consider "prefix sub (c # cs)" | "py_in_str sub cs" by auto
    then show "\<exists>ps ss. c # cs = ps @ sub @ ss"
    proof cases
      case 1
      then obtain ss where "c # cs = sub @ ss" by (auto simp: prefix_def)
      then have "c # cs = [] @ sub @ ss" by simp
      then show ?thesis by blast
    next
      case 2
      with Cons.IH obtain ps ss where "cs = ps @ sub @ ss" by auto
      then have "c # cs = (c # ps) @ sub @ ss" by simp
      then show ?thesis by blast
    qed
  next
    assume "\<exists>ps ss. c # cs = ps @ sub @ ss"
    then obtain ps ss where e: "c # cs = ps @ sub @ ss" by blast
    show "py_in_str sub (c # cs)"
    proof (cases ps)
      case Nil
      with e have "prefix sub (c # cs)" by (simp add: prefix_def)
      then show ?thesis by simp
    next
      case (Cons p ps')
      with e have "cs = ps' @ sub @ ss" by simp
      with Cons.IH have "py_in_str sub cs" by blast
      then show ?thesis by simp
    qed
  qed
qed

lemma py_in_str_drop: "py_in_str sub s \<longleftrightarrow> (\<exists>j. prefix sub (drop j s))"
proof (induction s)
  case Nil
  then show ?case by simp
next
  case (Cons c cs)
  have "(\<exists>j. prefix sub (drop j (c # cs))) \<longleftrightarrow> prefix sub (c # cs) \<or> (\<exists>k. prefix sub (drop k cs))"
  proof
    assume "\<exists>j. prefix sub (drop j (c # cs))"
    then obtain j where j: "prefix sub (drop j (c # cs))" by blast
    show "prefix sub (c # cs) \<or> (\<exists>k. prefix sub (drop k cs))"
    proof (cases j)
      case 0
      with j show ?thesis by simp
    next
      case (Suc k)
      with j have "prefix sub (drop k cs)" by simp
      then show ?thesis by blast
    qed
  next
    assume "prefix sub (c # cs) \<or> (\<exists>k. prefix sub (drop k cs))"
    then show "\<exists>j. prefix sub (drop j (c # cs))"
    proof
      assume "prefix sub (c # cs)"
      then have "prefix sub (drop 0 (c # cs))" by simp
      then show ?thesis by blast
    next
      assume "\<exists>k. prefix sub (drop k cs)"
      then obtain k where "prefix sub (drop k cs)" by blast
      then have "prefix sub (drop (Suc k) (c # cs))" by simp
      then show ?thesis by blast
    qed
  qed
  with Cons.IH show ?case by simp
qed

lemma py_find_skip:
  "sub \<noteq> [] \<Longrightarrow> hd sub \<notin> set pre \<Longrightarrow> prefix sub rest \<Longrightarrow> py_find (pre @ rest) sub = int (length pre)"
proof (induction pre)
  case Nil
  then show ?case by (cases rest) auto
next
  case (Cons p pre)
  from Cons.prems have "\<not> prefix sub (p # pre @ rest)"
    by (cases sub) auto
  moreover from Cons have "py_find (pre @ rest) sub = int (length pre)"
    by simp
  ultimately show ?case by (simp add: Let_def)
qed

lemma py_lower_append: "py_lower (s @ t) = py_lower s @ py_lower t"
  by (simp add: py_lower_def)

lemma py_lower_replicate: "py_lower (replicate n c) = concat (replicate n (py_lower_char c))"
  by (simp add: py_lower_def map_replicate)

text \<open>
  What the function computes, in the terms of its own variables: \<open>idx\<close> is the lowest
  index at which the lowered keyword occurs in the lowered HTML, and the window is cut
  from the HTML itself at the positions computed from \<open>idx\<close>.
\<close>

lemma smart_clean_html_lowered_index:
  assumes "keyword \<noteq> []"
    and "py_find (py_lower body) (py_lower keyword) = int idx"
  shows "smart_clean_html body ts (Some keyword)
     = (U ''...'' @ py_slice body (max 0 (int idx - 500)) (min (int (length body)) (int idx + 1500))
          @ U ''...'', ts)"
  using assms by (simp add: smart_clean_html_def Let_def)

lemma smart_clean_html_no_match:
  "(\<forall>j. \<not> prefix (py_lower keyword) (drop j (py_lower body))) \<Longrightarrow>
     smart_clean_html body ts (Some keyword) = (take 4000 body, ts)"
  using py_find_none [of "py_lower keyword" "py_lower body"]
  by (simp add: smart_clean_html_def Let_def)

lemma smart_clean_html_no_keyword:
  "smart_clean_html body ts None = (take 4000 body, ts)"
  "smart_clean_html body ts (Some []) = (take 4000 body, ts)"
  by (simp_all add: smart_clean_html_def)

text \<open>
  Where the HTML has no dotted capital, lowering keeps every position, the index found
  is the index of the match in the HTML itself, and the window is the one around the
  match: 500 characters before it and 1500 from it on, clipped to the text.
\<close>

lemma py_lower_char_single: "c \<noteq> CapitalIDot \<Longrightarrow> \<exists>d. py_lower_char c = [d]"
  by (cases c) simp_all

lemma drop_py_lower_plain:
  "CapitalIDot \<notin> set s \<Longrightarrow> drop j (py_lower s) = py_lower (drop j s)"
proof (induction s arbitrary: j)
  case Nil
  then show ?case by (simp add: py_lower_def)
next
  case (Cons c cs)
  then obtain d where d: "py_lower_char c = [d]"
    using py_lower_char_single [of c] by auto
  show ?case
  proof (cases j)
    case 0
    then show ?thesis by simp
  next
    case (Suc k)
    with Cons d show ?thesis by (simp add: py_lower_def)
  qed
qed

lemma py_lower_not_Nil: "s \<noteq> [] \<Longrightarrow> py_lower s \<noteq> []"
  by (cases s; cases "hd s") (auto simp: py_lower_def)

lemma smart_clean_html_window_plain:
  assumes "CapitalIDot \<notin> set body"
    and "keyword \<noteq> []"
    and "prefix (py_lower keyword) (py_lower (drop idx body))"
    and "\<forall>j<idx. \<not> prefix (py_lower keyword) (py_lower (drop j body))"
  shows "smart_clean_html body ts (Some keyword)
     = (U ''...'' @ py_slice body (max 0 (int idx - 500)) (min (int (length body)) (int idx + 1500))
          @ U ''...'', ts)"
proof -
  from assms(2) have ne: "py_lower keyword \<noteq> []"
    by (rule py_lower_not_Nil)
  from assms(1,3) have p: "prefix (py_lower keyword) (drop idx (py_lower body))"
    by (simp add: drop_py_lower_plain)
  with ne have "drop idx (py_lower body) \<noteq> []" by auto
  then have le: "idx \<le> length (py_lower body)" by simp
  from assms(1,4) have "\<forall>j<idx. \<not> prefix (py_lower keyword) (drop j (py_lower body))"
    by (simp add: drop_py_lower_plain)
  with p le have "py_find (py_lower body) (py_lower keyword) = int idx"
    by (intro py_find_least)
  with assms(2) show ?thesis
    by (rule smart_clean_html_lowered_index)
qed

subsection \<open>The page with dotted capitals\<close>

lemma py_lower_dotted_page:
  "py_lower dotted_page =
     (U ''<body>'' @ concat (replicate 300 [Latin1 CHR ''i'', CombiningDot])
        @ replicate 400 (Latin1 CHR ''z''))
     @ (U ''key'' @ replicate 2000 (Latin1 CHR ''y'') @ U ''</body>'')"
proof -
  have "py_lower (U ''<body>'') = U ''<body>''" "py_lower (U ''KEY'') = U ''key''"
    "py_lower (U ''</body>'') = U ''</body>''"
    by code_simp+
  moreover have "py_lower_char (Latin1 CHR ''z'') = [Latin1 CHR ''z'']"
    "py_lower_char (Latin1 CHR ''y'') = [Latin1 CHR ''y'']"
    by (simp_all add: lower_latin1_def)
  ultimately show ?thesis
    by (simp add: dotted_page_def py_lower_append py_lower_replicate del: U_append U_append_assoc)
qed

lemma py_find_dotted_page: "py_find (py_lower dotted_page) (py_lower (U ''key'')) = 1006"
proof -
  have k: "py_lower (U ''key'') = U ''key''"
    by code_simp
  have "py_find ((U ''<body>'' @ concat (replicate 300 [Latin1 CHR ''i'', CombiningDot])
        @ replicate 400 (Latin1 CHR ''z''))
     @ (U ''key'' @ replicate 2000 (Latin1 CHR ''y'') @ U ''</body>'')) (U ''key'')
     = int (length (U ''<body>'' @ concat (replicate 300 [Latin1 CHR ''i'', CombiningDot])
        @ replicate 400 (Latin1 CHR ''z'')))"
    by (rule py_find_skip) (auto simp: U_def)
  also have "\<dots> = 1006"
    by (simp add: length_concat sum_list_replicate)
  finally show ?thesis
    by (simp only: py_lower_dotted_page k)
qed

lemma py_lower_head_differs:
  assumes "\<forall>x\<in>set pre. py_lower_char x \<noteq> [] \<and> hd (py_lower_char x) \<noteq> c"
    and "j < length pre"
  shows "py_lower (take (Suc n) (drop j (pre @ rest))) \<noteq> c # cs"
proof -
  from assms(2) have "drop j (pre @ rest) = pre ! j # drop (Suc j) (pre @ rest)"
    by (simp add: Cons_nth_drop_Suc nth_append)
  then have "py_lower (take (Suc n) (drop j (pre @ rest)))
      = py_lower_char (pre ! j) @ py_lower (take n (drop (Suc j) (pre @ rest)))"
    by (simp add: py_lower_def)
  moreover from assms have "py_lower_char (pre ! j) \<noteq> [] \<and> hd (py_lower_char (pre ! j)) \<noteq> c"
    by simp
  ultimately show ?thesis
    by (cases "py_lower_char (pre ! j)") auto
qed

text \<open>
  C7, on the page with dotted capitals and the keyword \<^verbatim>\<open>key\<close>. The keyword stands at
  index 706 of the HTML and nowhere before it, so the window of the claim (and of the
  comment in the source, 500 characters before and 1500 after) runs from 206 to 2206.
  The function finds the keyword at index 1006 of the lowered HTML, where each dotted
  capital has become two characters, and cuts the HTML from 506 to 2506: the window
  returned has 200 characters before the keyword, not 500.
\<close>

theorem smart_clean_html_misplaced_window:
  "length dotted_page = 2716
   \<and> take 3 (drop 706 dotted_page) = U ''KEY''
   \<and> py_lower (U ''KEY'') = py_lower (U ''key'')
   \<and> \<not> (\<exists>j<706. py_lower (take 3 (drop j dotted_page)) = py_lower (U ''key''))
   \<and> py_slice dotted_page (max 0 (706 - 500)) (min (int (length dotted_page)) (706 + 1500))
       = replicate 100 CapitalIDot @ replicate 400 (Latin1 CHR ''z'') @ U ''KEY''
         @ replicate 1497 (Latin1 CHR ''y'')
   \<and> smart_clean_html dotted_page ts (Some (U ''key''))
       = (U ''...'' @ py_slice dotted_page 506 2506 @ U ''...'', ts)
   \<and> py_slice dotted_page 506 2506
       = replicate 200 (Latin1 CHR ''z'') @ U ''KEY'' @ replicate 1797 (Latin1 CHR ''y'')"
proof -
  have len: "length dotted_page = 2716"
    by (simp add: dotted_page_def)
  have at: "take 3 (drop 706 dotted_page) = U ''KEY''"
    by (simp add: dotted_page_def del: U_append U_append_assoc)
  have same: "py_lower (U ''KEY'') = py_lower (U ''key'')"
    by code_simp
  have k: "py_lower (U ''key'') = Latin1 CHR ''k'' # U ''ey''"
    by code_simp
  have split: "dotted_page
      = (U ''<body>'' @ replicate 300 CapitalIDot @ replicate 400 (Latin1 CHR ''z''))
        @ (U ''KEY'' @ replicate 2000 (Latin1 CHR ''y'') @ U ''</body>'')"
    by (simp add: dotted_page_def del: U_append U_append_assoc)
  have heads: "\<forall>x\<in>set (U ''<body>'' @ replicate 300 CapitalIDot @ replicate 400 (Latin1 CHR ''z'')).
      py_lower_char x \<noteq> [] \<and> hd (py_lower_char x) \<noteq> Latin1 CHR ''k''"
    by (auto simp: U_def lower_latin1_def simp del: U_append U_append_assoc)
  have before: "\<not> (\<exists>j<706. py_lower (take 3 (drop j dotted_page)) = py_lower (U ''key''))"
  proof
    assume "\<exists>j<706. py_lower (take 3 (drop j dotted_page)) = py_lower (U ''key'')"
    then obtain j where j: "j < 706"
      and eq: "py_lower (take (Suc 2) (drop j dotted_page)) = Latin1 CHR ''k'' # U ''ey''"
      by (auto simp: k eval_nat_numeral)
    from j have "j < length (U ''<body>'' @ replicate 300 CapitalIDot @ replicate 400 (Latin1 CHR ''z''))"
      by (simp del: U_append U_append_assoc)
    from py_lower_head_differs [OF heads this] eq show False
      unfolding split by blast
  qed
  have claimed: "py_slice dotted_page (max 0 (706 - 500)) (min (int (length dotted_page)) (706 + 1500))
       = replicate 100 CapitalIDot @ replicate 400 (Latin1 CHR ''z'') @ U ''KEY''
         @ replicate 1497 (Latin1 CHR ''y'')"
    unfolding len by (simp add: dotted_page_def py_slice_def del: U_append U_append_assoc)
  have returned: "smart_clean_html dotted_page ts (Some (U ''key''))
       = (U ''...'' @ py_slice dotted_page 506 2506 @ U ''...'', ts)"
    using smart_clean_html_lowered_index [of "U ''key''" dotted_page 1006 ts] py_find_dotted_page
    by (simp add: len del: U_append U_append_assoc)
  have window: "py_slice dotted_page 506 2506
       = replicate 200 (Latin1 CHR ''z'') @ U ''KEY'' @ replicate 1797 (Latin1 CHR ''y'')"
    by (simp add: dotted_page_def py_slice_def del: U_append U_append_assoc)
  show ?thesis
    using len at same before claimed returned window by (intro conjI)
qed

section \<open>Properties of the fetch strategy\<close>

lemma is_hard_target_iff:
  "is_hard_target url \<longleftrightarrow> (\<exists>domain\<in>set ANTI_BOT_SITES. \<exists>ps ss. url = ps @ domain @ ss)"
  by (simp add: is_hard_target_def list_ex_iff py_in_str_iff)

lemma stealth_try_events:
  "fst (stealth_try w url) = [DriverGet url]
   \<or> fst (stealth_try w url) = [DriverGet url, Sleep 5, ReadPageSource]"
  by (simp add: stealth_try_def split: option.splits sum.splits)

lemma stealth_fetch_events:
  assumes "chrome_launch w = None"
  shows "fst (stealth_fetch w url) = [Toast, ChromeLaunch] @ fst (stealth_try w url) @ [DriverQuit]"
  using assms by (simp add: stealth_fetch_def split: prod.splits)

text \<open>
  C6, as the specification states it: the browser is used exactly when the host of
  the URL matches the list. The code looks for a listed domain anywhere in the URL, so
  a URL whose host is \<^verbatim>\<open>example.com\<close> and whose query mentions \<^verbatim>\<open>nike.com\<close> is fetched
  with the browser, although no listed domain occurs in its host.
\<close>

theorem fetch_html_host_counterexample:
  "spec_url_host (U ''https://example.com/?from=nike.com'') = U ''example.com''
   \<and> \<not> spec_host_matches (U ''https://example.com/?from=nike.com'')
   \<and> SELENIUM_AVAILABLE example_world
   \<and> fetch_html example_world (U ''https://example.com/?from=nike.com'')
       = ([Toast, ChromeLaunch, DriverGet (U ''https://example.com/?from=nike.com''), Sleep 5,
           ReadPageSource, DriverQuit],
          Inr (Some (U ''<html>rendered</html>'')))"
  by code_simp

text \<open>
  C6, amended: the browser is used exactly when some listed domain occurs as a substring
  anywhere in the URL and the browser backend is available. In every other case, a
  listed domain with the backend unavailable included, the function makes one call of
  \<^verbatim>\<open>requests.get\<close> with the desktop user agent and a timeout of 10 seconds, and returns
  the text or \<^verbatim>\<open>None\<close> without raising.
\<close>

theorem fetch_html_strategy:
  "(is_hard_target url \<longleftrightarrow> (\<exists>domain\<in>set ANTI_BOT_SITES. \<exists>ps ss. url = ps @ domain @ ss))
   \<and> (is_hard_target url \<and> SELENIUM_AVAILABLE w \<longrightarrow>
        fetch_html w url = stealth_fetch w url
        \<and> ChromeLaunch \<in> set (fst (fetch_html w url))
        \<and> (\<forall>u agent timeout. RequestsGet u agent timeout \<notin> set (fst (fetch_html w url))))
   \<and> (\<not> (is_hard_target url \<and> SELENIUM_AVAILABLE w) \<longrightarrow>
        fst (fetch_html w url) = [RequestsGet url USER_AGENT 10]
        \<and> snd (fetch_html w url)
            = (case requests_get w url USER_AGENT 10 of Inl e \<Rightarrow> Inr None | Inr text \<Rightarrow> Inr (Some text))
        \<and> (\<exists>r. snd (fetch_html w url) = Inr r))
   \<and> USER_AGENT = U ''Mozilla/5.0 (Macintosh; Intel Mac OS X 10_15_7)''"
proof (intro conjI impI)
  show "is_hard_target url \<longleftrightarrow> (\<exists>domain\<in>set ANTI_BOT_SITES. \<exists>ps ss. url = ps @ domain @ ss)"
    by (rule is_hard_target_iff)
next
  assume a: "is_hard_target url \<and> SELENIUM_AVAILABLE w"
  then show f: "fetch_html w url = stealth_fetch w url"
    by (simp add: fetch_html_def)
  show "ChromeLaunch \<in> set (fst (fetch_html w url))"
    unfolding f by (auto simp: stealth_fetch_def split: option.splits prod.splits)
  show "\<forall>u agent timeout. RequestsGet u agent timeout \<notin> set (fst (fetch_html w url))"
    unfolding f using stealth_try_events [of w url]
    by (auto simp: stealth_fetch_def split: option.splits prod.splits)
next
  assume a: "\<not> (is_hard_target url \<and> SELENIUM_AVAILABLE w)"
  then have f: "fetch_html w url = direct_fetch w url"
    by (auto simp: fetch_html_def)
  show "fst (fetch_html w url) = [RequestsGet url USER_AGENT 10]"
    unfolding f by (simp add: direct_fetch_def)
  show "snd (fetch_html w url)
            = (case requests_get w url USER_AGENT 10 of Inl e \<Rightarrow> Inr None | Inr text \<Rightarrow> Inr (Some text))"
    unfolding f by (simp add: direct_fetch_def)
  show "\<exists>r. snd (fetch_html w url) = Inr r"
    unfolding f by (simp add: direct_fetch_def split: sum.splits)
next
  show "USER_AGENT = U ''Mozilla/5.0 (Macintosh; Intel Mac OS X 10_15_7)''"
    by (simp add: USER_AGENT_def)
qed

theorem fetch_html_strategy_witness:
  "is_hard_target (U ''https://www.nike.com/shoes'')
   \<and> SELENIUM_AVAILABLE example_world
   \<and> ChromeLaunch \<in> set (fst (fetch_html example_world (U ''https://www.nike.com/shoes'')))
   \<and> \<not> (is_hard_target (U ''https://www.nike.com/shoes'')
         \<and> SELENIUM_AVAILABLE (example_world\<lparr>SELENIUM_AVAILABLE := False\<rparr>))
   \<and> fetch_html (example_world\<lparr>SELENIUM_AVAILABLE := False\<rparr>) (U ''https://www.nike.com/shoes'')
       = ([RequestsGet (U ''https://www.nike.com/shoes'') USER_AGENT 10], Inr (Some (U ''<html>served</html>'')))"
proof -
  have h: "is_hard_target (U ''https://www.nike.com/shoes'')"
    by code_simp
  have s: "SELENIUM_AVAILABLE example_world"
    by (simp add: example_world_def)
  have n: "\<not> (is_hard_target (U ''https://www.nike.com/shoes'')
         \<and> SELENIUM_AVAILABLE (example_world\<lparr>SELENIUM_AVAILABLE := False\<rparr>))"
    by simp
  from fetch_html_strategy [of "(U ''https://www.nike.com/shoes'')" example_world] h s
  have c: "ChromeLaunch \<in> set (fst (fetch_html example_world (U ''https://www.nike.com/shoes'')))"
    by blast
  from fetch_html_strategy [of "(U ''https://www.nike.com/shoes'')" "example_world\<lparr>SELENIUM_AVAILABLE := False\<rparr>"] n
  have "fst (fetch_html (example_world\<lparr>SELENIUM_AVAILABLE := False\<rparr>) (U ''https://www.nike.com/shoes''))
          = [RequestsGet (U ''https://www.nike.com/shoes'') USER_AGENT 10]
        \<and> snd (fetch_html (example_world\<lparr>SELENIUM_AVAILABLE := False\<rparr>) (U ''https://www.nike.com/shoes''))
          = (case requests_get (example_world\<lparr>SELENIUM_AVAILABLE := False\<rparr>) (U ''https://www.nike.com/shoes'') USER_AGENT 10 of
               Inl e \<Rightarrow> Inr None | Inr text \<Rightarrow> Inr (Some text))"
    by blast
  then have d: "fetch_html (example_world\<lparr>SELENIUM_AVAILABLE := False\<rparr>) (U ''https://www.nike.com/shoes'')
       = ([RequestsGet (U ''https://www.nike.com/shoes'') USER_AGENT 10], Inr (Some (U ''<html>served</html>'')))"
    by (simp add: example_world_def prod_eq_iff)
  show ?thesis
    using h s c n d by (intro conjI)
qed

text \<open>
  C9: in the browser branch, once the driver has been created, \<^verbatim>\<open>driver.quit()\<close> is
  called exactly once and is the last call the function makes, whether navigation
  fails, the page source cannot be read, or the page is returned.
\<close>

theorem stealth_fetch_quits:
  "(is_hard_target url \<and> SELENIUM_AVAILABLE w \<and> chrome_launch w = None \<longrightarrow>
      fst (fetch_html w url) \<noteq> []
      \<and> last (fst (fetch_html w url)) = DriverQuit
      \<and> count_list (fst (fetch_html w url)) DriverQuit = 1
      \<and> (driver_quit w = None \<longrightarrow>
           (\<forall>e. driver_get w url = Some e \<longrightarrow>
              fetch_html w url = ([Toast, ChromeLaunch, DriverGet url, DriverQuit], Inl e))
           \<and> (\<forall>e. driver_get w url = None \<and> page_source w = Inl e \<longrightarrow>
              fetch_html w url
                = ([Toast, ChromeLaunch, DriverGet url, Sleep 5, ReadPageSource, DriverQuit], Inl e))
           \<and> (\<forall>html. driver_get w url = None \<and> page_source w = Inr html \<longrightarrow>
              fetch_html w url
                = ([Toast, ChromeLaunch, DriverGet url, Sleep 5, ReadPageSource, DriverQuit],
                   Inr (Some html)))))"
proof (intro impI)
  assume a: "is_hard_target url \<and> SELENIUM_AVAILABLE w \<and> chrome_launch w = None"
  then have f: "fetch_html w url = stealth_fetch w url"
    by (simp add: fetch_html_def)
  from a have ev: "fst (stealth_fetch w url) = [Toast, ChromeLaunch] @ fst (stealth_try w url) @ [DriverQuit]"
    by (simp add: stealth_fetch_events)
  have cnt: "count_list (fst (stealth_fetch w url)) DriverQuit = 1"
    unfolding ev using stealth_try_events [of w url] by auto
  have paths: "driver_quit w = None \<longrightarrow>
           (\<forall>e. driver_get w url = Some e \<longrightarrow>
              stealth_fetch w url = ([Toast, ChromeLaunch, DriverGet url, DriverQuit], Inl e))
           \<and> (\<forall>e. driver_get w url = None \<and> page_source w = Inl e \<longrightarrow>
              stealth_fetch w url
                = ([Toast, ChromeLaunch, DriverGet url, Sleep 5, ReadPageSource, DriverQuit], Inl e))
           \<and> (\<forall>html. driver_get w url = None \<and> page_source w = Inr html \<longrightarrow>
              stealth_fetch w url
                = ([Toast, ChromeLaunch, DriverGet url, Sleep 5, ReadPageSource, DriverQuit],
                   Inr (Some html)))"
    using a by (simp add: stealth_fetch_def stealth_try_def)
  show "fst (fetch_html w url) \<noteq> []
      \<and> last (fst (fetch_html w url)) = DriverQuit
      \<and> count_list (fst (fetch_html w url)) DriverQuit = 1
      \<and> (driver_quit w = None \<longrightarrow>
           (\<forall>e. driver_get w url = Some e \<longrightarrow>
              fetch_html w url = ([Toast, ChromeLaunch, DriverGet url, DriverQuit], Inl e))
           \<and> (\<forall>e. driver_get w url = None \<and> page_source w = Inl e \<longrightarrow>
              fetch_html w url
                = ([Toast, ChromeLaunch, DriverGet url, Sleep 5, ReadPageSource, DriverQuit], Inl e))
           \<and> (\<forall>html. driver_get w url = None \<and> page_source w = Inr html \<longrightarrow>
              fetch_html w url
                = ([Toast, ChromeLaunch, DriverGet url, Sleep 5, ReadPageSource, DriverQuit],
                   Inr (Some html))))"
    unfolding f using cnt paths by (simp add: ev)
qed

theorem stealth_fetch_quits_witness:
  "is_hard_target (U ''https://www.nike.com/shoes'')
   \<and> SELENIUM_AVAILABLE (example_world\<lparr>driver_get := \<lambda>u. Some WebDriverException\<rparr>)
   \<and> chrome_launch (example_world\<lparr>driver_get := \<lambda>u. Some WebDriverException\<rparr>) = None
   \<and> last (fst (fetch_html (example_world\<lparr>driver_get := \<lambda>u. Some WebDriverException\<rparr>)
                  (U ''https://www.nike.com/shoes''))) = DriverQuit
   \<and> fetch_html (example_world\<lparr>driver_get := \<lambda>u. Some WebDriverException\<rparr>)
         (U ''https://www.nike.com/shoes'')
       = ([Toast, ChromeLaunch, DriverGet (U ''https://www.nike.com/shoes''), DriverQuit],
          Inl WebDriverException)"
proof -
  have h: "is_hard_target (U ''https://www.nike.com/shoes'')"
    by code_simp
  have s: "SELENIUM_AVAILABLE (example_world\<lparr>driver_get := \<lambda>u. Some WebDriverException\<rparr>)"
    by (simp add: example_world_def)
  have c: "chrome_launch (example_world\<lparr>driver_get := \<lambda>u. Some WebDriverException\<rparr>) = None"
    by (simp add: example_world_def)
  have q: "driver_quit (example_world\<lparr>driver_get := \<lambda>u. Some WebDriverException\<rparr>) = None"
    by (simp add: example_world_def)
  have g: "driver_get (example_world\<lparr>driver_get := \<lambda>u. Some WebDriverException\<rparr>)
      (U ''https://www.nike.com/shoes'') = Some WebDriverException"
    by simp
  note t = stealth_fetch_quits [of "(U ''https://www.nike.com/shoes'')"
      "example_world\<lparr>driver_get := \<lambda>u. Some WebDriverException\<rparr>"]
  from t h s c have l: "last (fst (fetch_html (example_world\<lparr>driver_get := \<lambda>u. Some WebDriverException\<rparr>)
                  (U ''https://www.nike.com/shoes''))) = DriverQuit"
    by blast
  from t h s c q g have d: "fetch_html (example_world\<lparr>driver_get := \<lambda>u. Some WebDriverException\<rparr>)
         (U ''https://www.nike.com/shoes'')
       = ([Toast, ChromeLaunch, DriverGet (U ''https://www.nike.com/shoes''), DriverQuit],
          Inl WebDriverException)"
    by blast
  show ?thesis
    using h s c l d by (intro conjI)
qed

section \<open>Properties of a run\<close>

lemma copy_field_other:
  assumes "copy_field k data df = Inr df'" and "k' \<noteq> k"
  shows "df' k' = df k'"
  using assms by (auto simp: copy_field_def split: sum.splits if_splits)

lemma set_price_string:
  assumes "set_price data df = Inr df'"
  shows "df' (U ''price'') = df (U ''price'') \<or> (\<exists>s. df' (U ''price'') = Some (JStr s))"
  using assms by (auto simp: set_price_def split: sum.splits if_splits)

lemma block_body_price_string:
  "fst (block_body df script) (U ''price'') = df (U ''price'')
   \<or> (\<exists>s. fst (block_body df script) (U ''price'') = Some (JStr s))"
proof (cases script)
  case (Inl e)
  then show ?thesis by (simp add: block_body_def)
next
  case (Inr v)
  define data where "data = unwrap_list v"
  show ?thesis
  proof (cases "copy_field (U ''name'') data df")
    case (Inl e)
    with Inr show ?thesis by (simp add: block_body_def data_def)
  next
    case n: (Inr df1)
    then have p1: "df1 (U ''price'') = df (U ''price'')"
      by (rule copy_field_other) simp
    show ?thesis
    proof (cases "copy_field (U ''description'') data df1")
      case (Inl e)
      with Inr n p1 show ?thesis by (simp add: block_body_def data_def)
    next
      case d: (Inr df2)
      then have "df2 (U ''price'') = df1 (U ''price'')"
        by (rule copy_field_other) simp
      with p1 have p2: "df2 (U ''price'') = df (U ''price'')" by simp
      show ?thesis
      proof (cases "set_price data df2")
        case (Inl e)
        with Inr n d p2 show ?thesis by (simp add: block_body_def data_def)
      next
        case (Inr df3)
        from set_price_string [OF this] p2
        have "df3 (U ''price'') = df (U ''price'') \<or> (\<exists>s. df3 (U ''price'') = Some (JStr s))" by simp
        with \<open>script = Inr v\<close> n d Inr show ?thesis by (simp add: block_body_def data_def)
      qed
    qed
  qed
qed

lemma parse_json_ld_price_string:
  "parse_json_ld scripts (U ''price'') = Some v \<Longrightarrow> \<exists>s. v = JStr s"
proof (induction scripts arbitrary: v rule: rev_induct)
  case Nil
  then show ?case by (simp add: parse_json_ld_def)
next
  case (snoc script scripts)
  from block_body_price_string [of "parse_json_ld scripts" script]
  show ?case
  proof
    assume "fst (block_body (parse_json_ld scripts) script) (U ''price'') = parse_json_ld scripts (U ''price'')"
    with snoc.prems have "parse_json_ld scripts (U ''price'') = Some v"
      by (simp add: parse_json_ld_snoc)
    then show ?thesis by (rule snoc.IH)
  next
    assume "\<exists>s. fst (block_body (parse_json_ld scripts) script) (U ''price'') = Some (JStr s)"
    with snoc.prems show ?thesis by (auto simp: parse_json_ld_snoc)
  qed
qed

lemma text_fallback_cases:
  "(\<exists>r. r \<noteq> [] \<and> text_fallback w ts intent = HealedText r) \<or> text_fallback w ts intent = AllStrategiesFailed"
  by (simp add: text_fallback_def split: option.splits)

lemma snd_smart_clean_html: "snd (smart_clean_html body ts kw) = ts"
  by (simp add: smart_clean_html_def Let_def split: option.splits)

lemma heal_unfold:
  "heal w pg intent subject =
     (case try_selector pg (generate_selector w
             (fst (smart_clean_html (body_text pg) (text_structure pg) (Some subject))) intent) of
        Some result \<Rightarrow> ([SelectorHealing], HealedSelector result)
      | None \<Rightarrow> ([SelectorHealing, TextFallback], text_fallback w (text_structure pg) intent))"
proof -
  obtain fh ts where p: "smart_clean_html (body_text pg) (text_structure pg) (Some subject) = (fh, ts)"
    by (cases "smart_clean_html (body_text pg) (text_structure pg) (Some subject)")
  then have "ts = text_structure pg"
    using snd_smart_clean_html [of "body_text pg" "text_structure pg" "Some subject"] by simp
  with p show ?thesis by (simp add: heal_def)
qed

lemma try_selector_Some:
  "try_selector pg new_selector = Some t \<longleftrightarrow>
     (\<exists>sel. new_selector = Some sel \<and> select_one pg sel = Inr (Some t) \<and> t \<noteq> [])"
  by (auto simp: try_selector_def soup_select_one_def split: option.splits sum.splits)

lemma heal_cases:
  "(\<exists>r. heal w pg intent subject = ([SelectorHealing], HealedSelector r))
   \<or> (\<exists>r. heal w pg intent subject = ([SelectorHealing, TextFallback], HealedText r))
   \<or> heal w pg intent subject = ([SelectorHealing, TextFallback], AllStrategiesFailed)"
  using text_fallback_cases [of w "text_structure pg" intent]
  by (auto simp: heal_unfold split: option.splits)

lemma run_stages_unfold:
  "run_stages w pg intent sb =
     (if py_in_str (U ''price'') (extract_subject intent)
          \<and> parse_json_ld (ld_json_scripts pg) (U ''price'') \<noteq> None
      then ((if sb then [CacheCheck] else []) @ [StructuredDataCheck],
            FoundInMetadata (py_str (the (parse_json_ld (ld_json_scripts pg) (U ''price'')))))
      else ((if sb then [CacheCheck] else []) @ [StructuredDataCheck] @ fst (heal w pg intent (extract_subject intent)),
            snd (heal w pg intent (extract_subject intent))))"
  by (auto simp: run_stages_def Let_def split: prod.splits)

lemma run_stages_cases:
  "(\<exists>v. run_stages w pg intent sb = ((if sb then [CacheCheck] else []) @ [StructuredDataCheck], FoundInMetadata v))
   \<or> (\<exists>r. run_stages w pg intent sb
          = ((if sb then [CacheCheck] else []) @ [StructuredDataCheck, SelectorHealing], HealedSelector r))
   \<or> (\<exists>r. run_stages w pg intent sb
          = ((if sb then [CacheCheck] else []) @ [StructuredDataCheck, SelectorHealing, TextFallback], HealedText r))
   \<or> run_stages w pg intent sb
          = ((if sb then [CacheCheck] else []) @ [StructuredDataCheck, SelectorHealing, TextFallback], AllStrategiesFailed)"
  using heal_cases [of w pg intent "extract_subject intent"]
  by (auto simp: run_stages_unfold)

lemma launch_agent_cases:
  "(\<exists>out. launch_agent w url intent sb = ([], out)
        \<and> (out = MissingInput \<or> out = LoadFailed \<or> (\<exists>e. out = FetchRaised e)))
   \<or> (\<exists>pg. launch_agent w url intent sb = run_stages w pg intent sb)"
  by (auto simp: launch_agent_def split: sum.splits option.splits)

text \<open>
  C1, as the specification states it: whenever the subject occurs in the name of a
  field that the record holds, the run returns that field and ends at the
  structured-data stage. The code tests one field only, and the other way round: it asks
  whether \<^verbatim>\<open>price\<close> occurs in the subject. For the intent \<^verbatim>\<open>Extract the description\<close>
  the subject is \<^verbatim>\<open>description\<close>, the record holds a description, and the run goes on
  to the selector stage.
\<close>

theorem structured_data_check_counterexample:
  "extract_subject (U ''Extract the description'') = U ''description''
   \<and> py_in_str (U ''description'') (U ''description'')
   \<and> snd (fetch_html example_world (U ''https://books.toscrape.com/index.html'')) = Inr (Some (U ''<html>served</html>''))
   \<and> parse_json_ld
        (ld_json_scripts (soup example_world (U ''<html>served</html>''))) (U ''description'')
       = Some (JStr (U ''A book of poems''))
   \<and> launch_agent example_world (U ''https://books.toscrape.com/index.html'') (U ''Extract the description'') True
       = ([CacheCheck, StructuredDataCheck, SelectorHealing], HealedSelector (U ''51.77''))"
  by code_simp

text \<open>
  C1, amended: in a run that has loaded a page, when \<^verbatim>\<open>price\<close> occurs in the subject
  and the record holds a price, the run returns the price string and ends after the
  structured-data stage, with no later stage entered. In every other case, whatever
  other fields the record holds, the structured-data stage does not answer and the run
  enters the selector stage.
\<close>

theorem structured_data_check_price:
  assumes "url \<noteq> []" and "intent \<noteq> []"
    and "snd (fetch_html w url) = Inr (Some html)" and "html \<noteq> []"
  shows "(\<forall>v. py_in_str (U ''price'') (extract_subject intent)
             \<and> parse_json_ld (ld_json_scripts (soup w html)) (U ''price'') = Some v \<longrightarrow>
           (\<exists>s. v = JStr s
              \<and> launch_agent w url intent sb
                  = ((if sb then [CacheCheck] else []) @ [StructuredDataCheck], FoundInMetadata s)))
         \<and> (\<not> (py_in_str (U ''price'') (extract_subject intent)
               \<and> parse_json_ld (ld_json_scripts (soup w html)) (U ''price'') \<noteq> None) \<longrightarrow>
             (\<forall>s. snd (launch_agent w url intent sb) \<noteq> FoundInMetadata s)
             \<and> SelectorHealing \<in> set (fst (launch_agent w url intent sb)))"
proof -
  have la: "launch_agent w url intent sb = run_stages w (soup w html) intent sb"
    using assms by (simp add: launch_agent_def)
  show ?thesis
  proof (intro conjI allI impI)
    fix v
    assume a: "py_in_str (U ''price'') (extract_subject intent)
             \<and> parse_json_ld (ld_json_scripts (soup w html)) (U ''price'') = Some v"
    then obtain s where s: "v = JStr s"
      using parse_json_ld_price_string by blast
    with a have "launch_agent w url intent sb
                  = ((if sb then [CacheCheck] else []) @ [StructuredDataCheck], FoundInMetadata s)"
      by (simp add: la run_stages_unfold)
    with s show "\<exists>s. v = JStr s
              \<and> launch_agent w url intent sb
                  = ((if sb then [CacheCheck] else []) @ [StructuredDataCheck], FoundInMetadata s)"
      by blast
  next
    fix s
    assume n: "\<not> (py_in_str (U ''price'') (extract_subject intent)
               \<and> parse_json_ld (ld_json_scripts (soup w html)) (U ''price'') \<noteq> None)"
    then show "snd (launch_agent w url intent sb) \<noteq> FoundInMetadata s"
      using heal_cases [of w "soup w html" intent "extract_subject intent"]
      by (auto simp: la run_stages_unfold)
  next
    assume n: "\<not> (py_in_str (U ''price'') (extract_subject intent)
               \<and> parse_json_ld (ld_json_scripts (soup w html)) (U ''price'') \<noteq> None)"
    then show "SelectorHealing \<in> set (fst (launch_agent w url intent sb))"
      using heal_cases [of w "soup w html" intent "extract_subject intent"]
      by (auto simp: la run_stages_unfold)
  qed
qed

theorem structured_data_check_price_witness:
  "(U ''https://books.toscrape.com/index.html'') \<noteq> []
   \<and> (U ''Extract the price'') \<noteq> []
   \<and> snd (fetch_html example_world (U ''https://books.toscrape.com/index.html'')) = Inr (Some (U ''<html>served</html>''))
   \<and> (U ''<html>served</html>'') \<noteq> []
   \<and> py_in_str (U ''price'') (extract_subject (U ''Extract the price''))
   \<and> parse_json_ld
        (ld_json_scripts (soup example_world (U ''<html>served</html>''))) (U ''price'')
       = Some (JStr (U ''GBP 24.99''))
   \<and> launch_agent example_world (U ''https://books.toscrape.com/index.html'') (U ''Extract the price'') True
       = ([CacheCheck, StructuredDataCheck], FoundInMetadata (U ''GBP 24.99''))"
proof -
  have u: "(U ''https://books.toscrape.com/index.html'') \<noteq> []" by simp
  have i: "(U ''Extract the price'') \<noteq> []" by simp
  have f: "snd (fetch_html example_world (U ''https://books.toscrape.com/index.html''))
      = Inr (Some (U ''<html>served</html>''))"
    by code_simp
  have h: "(U ''<html>served</html>'') \<noteq> []" by simp
  have p: "py_in_str (U ''price'') (extract_subject (U ''Extract the price''))"
    by code_simp
  have j: "parse_json_ld
        (ld_json_scripts (soup example_world (U ''<html>served</html>''))) (U ''price'')
       = Some (JStr (U ''GBP 24.99''))"
    by code_simp
  from structured_data_check_price [OF u i f h, where sb = True] p j
  obtain s where "JStr (U ''GBP 24.99'') = JStr s"
    and "launch_agent example_world (U ''https://books.toscrape.com/index.html'') (U ''Extract the price'') True
       = ((if True then [CacheCheck] else []) @ [StructuredDataCheck], FoundInMetadata s)"
    by blast
  then have l: "launch_agent example_world (U ''https://books.toscrape.com/index.html'') (U ''Extract the price'') True
       = ([CacheCheck, StructuredDataCheck], FoundInMetadata (U ''GBP 24.99''))"
    by simp
  show ?thesis
    using u i f h p j l by (intro conjI)
qed

text \<open>
  C3: in every run the stages entered are strictly increasing in the order cache,
  structured data, selector, text fallback, so none is entered twice and none after a
  later one; and a run that ends with a value ends in the stage that found it: after
  the metadata answer neither the selector nor the text stage is entered, after the
  selector answer the text stage is not entered.
\<close>

theorem launch_agent_forward:
  "sorted_wrt (\<lambda>a b. stage_rank a < stage_rank b) (fst (launch_agent w url intent sb))
   \<and> distinct (fst (launch_agent w url intent sb))
   \<and> (\<forall>v. snd (launch_agent w url intent sb) = FoundInMetadata v \<longrightarrow>
        last (fst (launch_agent w url intent sb)) = StructuredDataCheck
        \<and> SelectorHealing \<notin> set (fst (launch_agent w url intent sb))
        \<and> TextFallback \<notin> set (fst (launch_agent w url intent sb)))
   \<and> (\<forall>v. snd (launch_agent w url intent sb) = HealedSelector v \<longrightarrow>
        last (fst (launch_agent w url intent sb)) = SelectorHealing
        \<and> TextFallback \<notin> set (fst (launch_agent w url intent sb)))
   \<and> (\<forall>v. snd (launch_agent w url intent sb) = HealedText v \<longrightarrow>
        last (fst (launch_agent w url intent sb)) = TextFallback)"
proof -
  consider (stopped) out where "launch_agent w url intent sb = ([], out)"
      and "out = MissingInput \<or> out = LoadFailed \<or> (\<exists>e. out = FetchRaised e)"
    | (run) pg where "launch_agent w url intent sb = run_stages w pg intent sb"
    using launch_agent_cases [of w url intent sb] by blast
  then show ?thesis
  proof cases
    case stopped
    then show ?thesis by auto
  next
    case run
    consider (metadata) v where "run_stages w pg intent sb
          = ((if sb then [CacheCheck] else []) @ [StructuredDataCheck], FoundInMetadata v)"
      | (selector) r where "run_stages w pg intent sb
          = ((if sb then [CacheCheck] else []) @ [StructuredDataCheck, SelectorHealing], HealedSelector r)"
      | (fallback) r where "run_stages w pg intent sb
          = ((if sb then [CacheCheck] else []) @ [StructuredDataCheck, SelectorHealing, TextFallback], HealedText r)"
      | (failed) "run_stages w pg intent sb
          = ((if sb then [CacheCheck] else []) @ [StructuredDataCheck, SelectorHealing, TextFallback], AllStrategiesFailed)"
      using run_stages_cases [of w pg intent sb] by blast
    then show ?thesis
    proof cases
      case metadata
      with run show ?thesis by simp
    next
      case selector
      with run show ?thesis by simp
    next
      case fallback
      with run show ?thesis by simp
    next
      case failed
      with run show ?thesis by simp
    qed
  qed
qed

theorem launch_agent_forward_witness:
  "launch_agent example_world (U ''https://books.toscrape.com/index.html'') (U ''Extract the price'') True
       = ([CacheCheck, StructuredDataCheck], FoundInMetadata (U ''GBP 24.99''))
   \<and> TextFallback \<notin> set (fst (launch_agent example_world
        (U ''https://books.toscrape.com/index.html'') (U ''Extract the price'') True))
   \<and> launch_agent example_world (U ''https://books.toscrape.com/index.html'') (U ''Extract the cost'') False
       = ([StructuredDataCheck, SelectorHealing], HealedSelector (U ''51.77''))
   \<and> TextFallback \<notin> set (fst (launch_agent example_world
        (U ''https://books.toscrape.com/index.html'') (U ''Extract the cost'') False))
   \<and> sorted_wrt (\<lambda>a b. stage_rank a < stage_rank b) (fst (launch_agent example_world
        (U ''https://books.toscrape.com/index.html'') (U ''Extract the cost'') False))"
proof -
  have m: "launch_agent example_world (U ''https://books.toscrape.com/index.html'') (U ''Extract the price'') True
       = ([CacheCheck, StructuredDataCheck], FoundInMetadata (U ''GBP 24.99''))"
    by code_simp
  have s: "launch_agent example_world (U ''https://books.toscrape.com/index.html'') (U ''Extract the cost'') False
       = ([StructuredDataCheck, SelectorHealing], HealedSelector (U ''51.77''))"
    by code_simp
  note t1 = launch_agent_forward [of example_world "(U ''https://books.toscrape.com/index.html'')"
      "(U ''Extract the price'')" True]
  note t2 = launch_agent_forward [of example_world "(U ''https://books.toscrape.com/index.html'')"
      "(U ''Extract the cost'')" False]
  from t1 m have a: "TextFallback \<notin> set (fst (launch_agent example_world
        (U ''https://books.toscrape.com/index.html'') (U ''Extract the price'') True))"
    by simp
  from t2 s have b: "TextFallback \<notin> set (fst (launch_agent example_world
        (U ''https://books.toscrape.com/index.html'') (U ''Extract the cost'') False))"
    by simp
  from t2 have c: "sorted_wrt (\<lambda>a b. stage_rank a < stage_rank b) (fst (launch_agent example_world
        (U ''https://books.toscrape.com/index.html'') (U ''Extract the cost'') False))"
    by (rule conjunct1)
  show ?thesis
    using m a s b c by (intro conjI)
qed

text \<open>
  C5: the selector stage answers exactly when the candidate is a string, the query
  finds an element and that element's trimmed text is not empty; the answer is that
  text. When there is no candidate, the query raises, nothing matches or the text is
  empty, the run goes on to the text fallback, whose result (a value, or the failure of
  all strategies) is the result of the run.
\<close>

theorem heal_selector_outcome:
  "(\<forall>sel t. generate_selector w
        (fst (smart_clean_html (body_text pg) (text_structure pg) (Some subject))) intent = Some sel
       \<and> select_one pg sel = Inr (Some t) \<and> t \<noteq> [] \<longrightarrow>
       heal w pg intent subject = ([SelectorHealing], HealedSelector t))
   \<and> (\<forall>r. snd (heal w pg intent subject) = HealedSelector r \<longrightarrow>
        (\<exists>sel. generate_selector w
            (fst (smart_clean_html (body_text pg) (text_structure pg) (Some subject))) intent = Some sel
          \<and> select_one pg sel = Inr (Some r) \<and> r \<noteq> []))
   \<and> (generate_selector w
          (fst (smart_clean_html (body_text pg) (text_structure pg) (Some subject))) intent = None
        \<or> (\<exists>sel. generate_selector w
              (fst (smart_clean_html (body_text pg) (text_structure pg) (Some subject))) intent = Some sel
            \<and> ((\<exists>e. select_one pg sel = Inl e) \<or> select_one pg sel = Inr None
                \<or> select_one pg sel = Inr (Some []))) \<longrightarrow>
        heal w pg intent subject
          = ([SelectorHealing, TextFallback], text_fallback w (text_structure pg) intent))
   \<and> ((\<exists>r. r \<noteq> [] \<and> text_fallback w (text_structure pg) intent = HealedText r)
        \<or> text_fallback w (text_structure pg) intent = AllStrategiesFailed)"
proof (intro conjI allI impI)
  fix sel t
  assume "generate_selector w
        (fst (smart_clean_html (body_text pg) (text_structure pg) (Some subject))) intent = Some sel
       \<and> select_one pg sel = Inr (Some t) \<and> t \<noteq> []"
  then have "try_selector pg (generate_selector w
        (fst (smart_clean_html (body_text pg) (text_structure pg) (Some subject))) intent) = Some t"
    by (simp add: try_selector_Some)
  then show "heal w pg intent subject = ([SelectorHealing], HealedSelector t)"
    by (simp add: heal_unfold)
next
  fix r
  assume "snd (heal w pg intent subject) = HealedSelector r"
  then have "try_selector pg (generate_selector w
        (fst (smart_clean_html (body_text pg) (text_structure pg) (Some subject))) intent) = Some r"
    using text_fallback_cases [of w "text_structure pg" intent]
    by (auto simp: heal_unfold split: option.splits)
  then show "\<exists>sel. generate_selector w
            (fst (smart_clean_html (body_text pg) (text_structure pg) (Some subject))) intent = Some sel
          \<and> select_one pg sel = Inr (Some r) \<and> r \<noteq> []"
    by (simp add: try_selector_Some)
next
  assume "generate_selector w
          (fst (smart_clean_html (body_text pg) (text_structure pg) (Some subject))) intent = None
        \<or> (\<exists>sel. generate_selector w
              (fst (smart_clean_html (body_text pg) (text_structure pg) (Some subject))) intent = Some sel
            \<and> ((\<exists>e. select_one pg sel = Inl e) \<or> select_one pg sel = Inr None
                \<or> select_one pg sel = Inr (Some [])))"
  then have "try_selector pg (generate_selector w
        (fst (smart_clean_html (body_text pg) (text_structure pg) (Some subject))) intent) = None"
    by (auto simp: try_selector_def soup_select_one_def)
  then show "heal w pg intent subject
          = ([SelectorHealing, TextFallback], text_fallback w (text_structure pg) intent)"
    by (simp add: heal_unfold)
next
  show "(\<exists>r. r \<noteq> [] \<and> text_fallback w (text_structure pg) intent = HealedText r)
        \<or> text_fallback w (text_structure pg) intent = AllStrategiesFailed"
    by (rule text_fallback_cases)
qed

theorem heal_selector_outcome_witness:
  "generate_selector example_world
      (fst (smart_clean_html (body_text example_page) (text_structure example_page) (Some (U ''cost''))))
      (U ''Extract the cost'') = Some (U ''p.price_color'')
   \<and> select_one example_page (U ''p.price_color'') = Inr (Some (U ''51.77''))
   \<and> heal example_world example_page (U ''Extract the cost'') (U ''cost'')
       = ([SelectorHealing], HealedSelector (U ''51.77''))
   \<and> select_one (example_page\<lparr>select_one := \<lambda>sel. Inl SelectorSyntaxError\<rparr>) (U ''p.price_color'')
       = Inl SelectorSyntaxError
   \<and> heal example_world (example_page\<lparr>select_one := \<lambda>sel. Inl SelectorSyntaxError\<rparr>)
        (U ''Extract the cost'') (U ''cost'')
       = ([SelectorHealing, TextFallback], HealedText (U ''51.77''))"
proof -
  have g: "generate_selector example_world
      (fst (smart_clean_html (body_text example_page) (text_structure example_page) (Some (U ''cost''))))
      (U ''Extract the cost'') = Some (U ''p.price_color'')"
    by code_simp
  have so: "select_one example_page (U ''p.price_color'') = Inr (Some (U ''51.77''))"
    by (simp add: example_page_def)
  have ne: "(U ''51.77'') \<noteq> []" by simp
  note t = heal_selector_outcome [of example_world example_page "(U ''cost'')" "(U ''Extract the cost'')"]
  from t g so ne have a: "heal example_world example_page (U ''Extract the cost'') (U ''cost'')
       = ([SelectorHealing], HealedSelector (U ''51.77''))"
    by blast
  have g': "generate_selector example_world
      (fst (smart_clean_html (body_text (example_page\<lparr>select_one := \<lambda>sel. Inl SelectorSyntaxError\<rparr>))
             (text_structure (example_page\<lparr>select_one := \<lambda>sel. Inl SelectorSyntaxError\<rparr>)) (Some (U ''cost''))))
      (U ''Extract the cost'') = Some (U ''p.price_color'')"
    using g by simp
  have so': "select_one (example_page\<lparr>select_one := \<lambda>sel. Inl SelectorSyntaxError\<rparr>) (U ''p.price_color'')
       = Inl SelectorSyntaxError"
    by simp
  have tf: "text_fallback example_world
       (text_structure (example_page\<lparr>select_one := \<lambda>sel. Inl SelectorSyntaxError\<rparr>)) (U ''Extract the cost'')
      = HealedText (U ''51.77'')"
    by code_simp
  note t' = heal_selector_outcome [of example_world
      "example_page\<lparr>select_one := \<lambda>sel. Inl SelectorSyntaxError\<rparr>" "(U ''cost'')" "(U ''Extract the cost'')"]
  from t' g' so' have "heal example_world (example_page\<lparr>select_one := \<lambda>sel. Inl SelectorSyntaxError\<rparr>)
        (U ''Extract the cost'') (U ''cost'')
       = ([SelectorHealing, TextFallback], text_fallback example_world
       (text_structure (example_page\<lparr>select_one := \<lambda>sel. Inl SelectorSyntaxError\<rparr>)) (U ''Extract the cost''))"
    by blast
  with tf have b: "heal example_world (example_page\<lparr>select_one := \<lambda>sel. Inl SelectorSyntaxError\<rparr>)
        (U ''Extract the cost'') (U ''cost'')
       = ([SelectorHealing, TextFallback], HealedText (U ''51.77''))"
    by simp
  show ?thesis
    using g so a so' b by (intro conjI)
qed

end
